theory Spec2Isabelle
  imports Main "HOL-Library.Sublist"
begin

section \<open>Python values and exceptions\<close>

text \<open>
  Both scripts work on decoded JSON (what \<^verbatim>\<open>response.json()\<close> and \<^verbatim>\<open>json.loads\<close>
  return) with Python's dynamic operations. A dict is an association list, its keys being
  strings as in JSON; numbers are integers, which is all the scripts ever test (truthiness).
\<close>

datatype json =
    JNull
  | JBool bool
  | JNum int
  | JStr string
  | JList "json list"
  | JObj "(string \<times> json) list"

text \<open>
  The exceptions that can be raised on the paths of the two scripts.
  \<open>ConnectionError\<close>, \<open>HTTPError\<close> and \<open>InvalidJSONBody\<close> are the
  \<^verbatim>\<open>requests.exceptions.RequestException\<close> subclasses raised by \<^verbatim>\<open>requests.get/post\<close>,
  \<^verbatim>\<open>raise_for_status\<close> and \<^verbatim>\<open>response.json()\<close>; \<open>JSONDecodeError\<close> is the one of
  \<^verbatim>\<open>json.loads\<close>; \<open>ImageNotFound\<close> and \<open>DockerError\<close> come from the docker client.
\<close>

datatype exn =
    KeyError
  | TypeError
  | AttributeError
  | IndexError
  | JSONDecodeError
  | ConnectionError string
  | HTTPError nat
  | InvalidJSONBody
  | ImageNotFound
  | DockerError string

definition is_request_exception :: "exn \<Rightarrow> bool" where
  "is_request_exception e =
     (case e of ConnectionError _ \<Rightarrow> True | HTTPError _ \<Rightarrow> True | InvalidJSONBody \<Rightarrow> True
      | _ \<Rightarrow> False)"

text \<open>Sequencing of statements that may raise: the first exception ends the block.\<close>

definition andthen :: "exn + 'a \<Rightarrow> ('a \<Rightarrow> exn + 'b) \<Rightarrow> exn + 'b" where
  "andthen m f = (case m of Inl e \<Rightarrow> Inl e | Inr v \<Rightarrow> f v)"

text \<open>Truth value of an object in \<^verbatim>\<open>if x:\<close>.\<close>

fun truthy :: "json \<Rightarrow> bool" where
  "truthy JNull = False"
| "truthy (JBool b) = b"
| "truthy (JNum n) = (n \<noteq> 0)"
| "truthy (JStr s) = (s \<noteq> [])"
| "truthy (JList xs) = (xs \<noteq> [])"
| "truthy (JObj kvs) = (kvs \<noteq> [])"

text \<open>\<^verbatim>\<open>s.startswith(p)\<close> and the substring test \<^verbatim>\<open>k in s\<close> on strings.\<close>

definition startswith :: "string \<Rightarrow> string \<Rightarrow> bool" where
  "startswith s p \<longleftrightarrow> take (length p) s = p"

fun is_substring :: "string \<Rightarrow> string \<Rightarrow> bool" where
  "is_substring k [] = (k = [])"
| "is_substring k (c # cs) = (startswith (c # cs) k \<or> is_substring k cs)"

text \<open>\<^verbatim>\<open>d.get(k, default)\<close>: only a dict has the method.\<close>

fun py_get :: "json \<Rightarrow> string \<Rightarrow> json \<Rightarrow> exn + json" where
  "py_get (JObj kvs) k d = Inr (case map_of kvs k of Some v \<Rightarrow> v | None \<Rightarrow> d)"
| "py_get _ k d = Inl AttributeError"

text \<open>
  \<^verbatim>\<open>k in x\<close> for a string \<open>k\<close>: key membership in a dict, substring test in a string,
  element membership in a list, \<^verbatim>\<open>TypeError\<close> on the values that are not iterable.
\<close>

fun py_in :: "string \<Rightarrow> json \<Rightarrow> exn + bool" where
  "py_in k (JObj kvs) = Inr (k \<in> set (map fst kvs))"
| "py_in k (JStr s) = Inr (is_substring k s)"
| "py_in k (JList xs) = Inr (JStr k \<in> set xs)"
| "py_in k _ = Inl TypeError"

text \<open>\<^verbatim>\<open>x[k]\<close> for a string \<open>k\<close> and \<^verbatim>\<open>x[0]\<close>.\<close>

fun py_item :: "json \<Rightarrow> string \<Rightarrow> exn + json" where
  "py_item (JObj kvs) k = (case map_of kvs k of Some v \<Rightarrow> Inr v | None \<Rightarrow> Inl KeyError)"
| "py_item _ k = Inl TypeError"

fun py_first :: "json \<Rightarrow> exn + json" where
  "py_first (JList []) = Inl IndexError"
| "py_first (JList (x # xs)) = Inr x"
| "py_first (JStr []) = Inl IndexError"
| "py_first (JStr (c # cs)) = Inr (JStr [c])"
| "py_first (JObj kvs) = Inl KeyError"
| "py_first _ = Inl TypeError"

text \<open>The items a \<^verbatim>\<open>for\<close> loop visits.\<close>

fun py_iter :: "json \<Rightarrow> exn + json list" where
  "py_iter (JList xs) = Inr xs"
| "py_iter (JStr s) = Inr (map (\<lambda>c. JStr [c]) s)"
| "py_iter (JObj kvs) = Inr (map (\<lambda>kv. JStr (fst kv)) kvs)"
| "py_iter _ = Inl TypeError"

text \<open>\<^verbatim>\<open>xs[i]\<close> on a list of strings.\<close>

definition index :: "'a list \<Rightarrow> nat \<Rightarrow> exn + 'a" where
  "index xs i = (if i < length xs then Inr (xs ! i) else Inl IndexError)"

section \<open>String methods\<close>

text \<open>
  Strings are lists of 8-bit characters, read as the code points 0 to 255 (Latin-1), and the
  character methods are those of Python's \<^verbatim>\<open>str\<close> on these code points. \<open>isspace\<close> holds
  of what \<^verbatim>\<open>str.strip()\<close> removes: tab, newline, vertical tab, form feed, carriage return,
  the separators 28 to 31, the space, the next-line control 133 and the no-break space
  160. \<open>isupper\<close> holds of \<^verbatim>\<open>A\<close> to \<^verbatim>\<open>Z\<close> and of the capital letters 192 to 222, the
  multiplication sign 215 excepted; \<^verbatim>\<open>str.lower()\<close> moves each of them 32 places up.
\<close>

definition isspace :: "char \<Rightarrow> bool" where
  "isspace c \<longleftrightarrow>
     (let n = (of_char c :: nat)
      in (9 \<le> n \<and> n \<le> 13) \<or> (28 \<le> n \<and> n \<le> 32) \<or> n = 133 \<or> n = 160)"

definition isupper :: "char \<Rightarrow> bool" where
  "isupper c \<longleftrightarrow>
     (let n = (of_char c :: nat)
      in (65 \<le> n \<and> n \<le> 90) \<or> (192 \<le> n \<and> n \<le> 222 \<and> n \<noteq> 215))"

definition lower_char :: "char \<Rightarrow> char" where
  "lower_char c = (if isupper c then char_of ((of_char c :: nat) + 32) else c)"

definition lower :: "string \<Rightarrow> string" where
  "lower s = map lower_char s"

definition lstrip :: "string \<Rightarrow> string" where
  "lstrip s = dropWhile isspace s"

definition rstrip :: "string \<Rightarrow> string" where
  "rstrip s = rev (dropWhile isspace (rev s))"

definition strip :: "string \<Rightarrow> string" where
  "strip s = rstrip (lstrip s)"

text \<open>
  \<open>break_at sep s\<close> cuts \<open>s\<close> at the first occurrence of \<open>sep\<close>; \<open>split sep n s\<close> is
  \<^verbatim>\<open>s.split(sep, n)\<close> for a non-empty separator: at most \<open>n\<close> cuts, the last piece is
  not split again.
\<close>

fun break_at :: "string \<Rightarrow> string \<Rightarrow> (string \<times> string) option" where
  "break_at sep [] = None"
| "break_at sep (c # cs) =
     (if startswith (c # cs) sep then Some ([], drop (length sep) (c # cs))
      else map_option (\<lambda>(a, b). (c # a, b)) (break_at sep cs))"

fun split :: "string \<Rightarrow> nat \<Rightarrow> string \<Rightarrow> string list" where
  "split sep 0 s = [s]"
| "split sep (Suc n) s =
     (case break_at sep s of None \<Rightarrow> [s] | Some (a, b) \<Rightarrow> a # split sep n b)"

section \<open>The command parser of streamlit_mcp_chatbot.py\<close>

text \<open>
  The \<^verbatim>\<open>if/elif\<close> chain on \<^verbatim>\<open>command = prompt.strip().lower()\<close>. Each branch ends in one
  adapter call, or in a fixed reply; \<open>command\<close> records which, with the arguments the
  branch extracted. \<open>UsageAppend\<close> and \<open>UsagePatch\<close> are the two
  \<^verbatim>\<open>except IndexError\<close> replies, \<open>Unrecognized\<close> the final \<^verbatim>\<open>else\<close>.
\<close>

datatype command =
    Help
  | ListAll
  | ListDir string
  | GetContent string
  | Append string string
  | Patch string string string string
  | Search string
  | Delete string
  | DockerListImages
  | DockerListContainers
  | DockerCreate string
  | UsageAppend
  | UsagePatch
  | Unrecognized

text \<open>\<^verbatim>\<open>command.split(prefix, 1)[1].strip()\<close>\<close>

definition remainder :: "string \<Rightarrow> string \<Rightarrow> exn + string" where
  "remainder command p = andthen (index (split p 1 command) 1) (\<lambda>r. Inr (strip r))"

text \<open>\<^verbatim>\<open>try: ... except IndexError: usage\<close>\<close>

definition except_IndexError :: "exn + command \<Rightarrow> command \<Rightarrow> exn + command" where
  "except_IndexError body usage = (case body of Inl IndexError \<Rightarrow> Inr usage | r \<Rightarrow> r)"

definition parse_command :: "string \<Rightarrow> exn + command" where
  "parse_command prompt =
    (let command = lower (strip prompt) in
     if startswith command ''/help'' then Inr Help
     else if startswith command ''/obsidian_list_all'' then Inr ListAll
     else if startswith command ''/obsidian_list_dir '' then
       andthen (remainder command ''/obsidian_list_dir '') (\<lambda>directory. Inr (ListDir directory))
     else if startswith command ''/obsidian_get_content '' then
       andthen (remainder command ''/obsidian_get_content '') (\<lambda>filepath. Inr (GetContent filepath))
     else if startswith command ''/obsidian_append '' then
       except_IndexError
         (andthen (remainder command ''/obsidian_append '') (\<lambda>r.
            let parts = split '' '' 1 r in
            andthen (index parts 0) (\<lambda>filepath.
            andthen (index parts 1) (\<lambda>content.
            Inr (Append filepath content)))))
         UsageAppend
     else if startswith command ''/obsidian_patch '' then
       except_IndexError
         (andthen (remainder command ''/obsidian_patch '') (\<lambda>r.
            let parts = split '' '' 3 r in
            andthen (index parts 0) (\<lambda>filepath.
            andthen (index parts 1) (\<lambda>patch_type.
            andthen (index parts 2) (\<lambda>patch_target.
            andthen (index parts 3) (\<lambda>new_content.
            Inr (Patch filepath patch_type patch_target new_content)))))))
         UsagePatch
     else if startswith command ''/obsidian_search '' then
       andthen (remainder command ''/obsidian_search '') (\<lambda>query. Inr (Search query))
     else if startswith command ''/obsidian_delete '' then
       andthen (remainder command ''/obsidian_delete '') (\<lambda>filepath. Inr (Delete filepath))
     else if startswith command ''/docker_list_images'' then Inr DockerListImages
     else if startswith command ''/docker_list_containers'' then Inr DockerListContainers
     else if startswith command ''/docker_create '' then
       andthen (remainder command ''/docker_create '') (\<lambda>image_name. Inr (DockerCreate image_name))
     else Inr Unrecognized)"



text \<open>
  What the user types for one positional argument: \<open>single_argument\<close> is a non-empty text
  without whitespace; \<open>final_argument\<close>, the last one of a command, may contain spaces
  inside but neither starts nor ends with whitespace.
\<close>

definition single_argument :: "string \<Rightarrow> bool" where
  "single_argument a \<longleftrightarrow> a \<noteq> [] \<and> (\<forall>c\<in>set a. \<not> isspace c)"

definition final_argument :: "string \<Rightarrow> bool" where
  "final_argument a \<longleftrightarrow> a \<noteq> [] \<and> \<not> isspace (hd a) \<and> \<not> isspace (last a)"

section \<open>Conversation store, requests and the services outside\<close>

text \<open>
  \<^verbatim>\<open>st.session_state["messages"]\<close> is a list of dicts with the keys \<^verbatim>\<open>role\<close>, \<^verbatim>\<open>content\<close> and,
  on a tool message, \<^verbatim>\<open>name\<close>.
\<close>

datatype role = System | User | Assistant | Tool

record message =
  role :: role
  content :: json
  name :: "string option"

text \<open>
  The HTTP requests the scripts send: the chat request to the inference server carries the
  whole message list, with or without the tool definitions; the vault requests carry a
  path and an optional JSON body. A reply is an exception raised by \<^verbatim>\<open>requests\<close>, or a status
  code with the decoded body (\<open>None\<close> when the body is not JSON).
\<close>

datatype request =
    ChatPost "message list" bool
  | VaultGet string
  | VaultPost string "json option"

datatype http_reply = Raises string | Reply nat "json option"

text \<open>\<^verbatim>\<open>response.raise_for_status()\<close>, and the same followed by \<^verbatim>\<open>response.json()\<close>.\<close>

definition raise_for_status :: "http_reply \<Rightarrow> exn + http_reply" where
  "raise_for_status r =
     (case r of Raises m \<Rightarrow> Inl (ConnectionError m)
      | Reply status body \<Rightarrow>
          if 400 \<le> status \<and> status < 600 then Inl (HTTPError status) else Inr r)"

definition response_json :: "http_reply \<Rightarrow> exn + json" where
  "response_json r =
     andthen (raise_for_status r) (\<lambda>ok.
       case ok of Reply status (Some body) \<Rightarrow> Inr body | _ \<Rightarrow> Inl InvalidJSONBody)"

text \<open>
  What a run of a script shows and sends, in order. The texts of the f-strings are not
  rendered: an event carries the values its text interpolates.
\<close>

datatype event =
    Sent request
  | Markdown role json
  | RawResponse json
  | CallingTool json json
  | ToolResult string string
  | ToolFailed string exn
  | UnknownTool json
  | ErrorBox string

text \<open>
  The world outside a script: the HTTP services, and the library functions
  \<^verbatim>\<open>json.loads\<close>, \<^verbatim>\<open>json.dumps(_, indent=2)\<close> and \<^verbatim>\<open>str()\<close> on a value and on an exception.
\<close>

record env =
  http :: "request \<Rightarrow> http_reply"
  loads :: "string \<Rightarrow> exn + json"
  dumps :: "json \<Rightarrow> string"
  str_json :: "json \<Rightarrow> string"
  str_exn :: "exn \<Rightarrow> string"

text \<open>The session state (the message list and the \<^verbatim>\<open>rerun\<close> attribute) and the events of the run.\<close>

record world =
  messages :: "message list"
  rerun :: bool
  events :: "event list"

definition emit :: "event \<Rightarrow> world \<Rightarrow> world" where
  "emit e w = w\<lparr>events := events w @ [e]\<rparr>"

definition append_message :: "message \<Rightarrow> world \<Rightarrow> world" where
  "append_message m w = w\<lparr>messages := messages w @ [m]\<rparr>"

definition send :: "env \<Rightarrow> request \<Rightarrow> world \<Rightarrow> http_reply \<times> world" where
  "send env rq w = (http env rq, emit (Sent rq) w)"

section \<open>mcp_chatbot.py: the tool-calling round-trip\<close>

definition list_files :: "env \<Rightarrow> world \<Rightarrow> (exn + json) \<times> world" where
  "list_files env w = (let (r, w') = send env (VaultGet ''/vault/'') w in (response_json r, w'))"

definition summarize_file :: "env \<Rightarrow> json \<Rightarrow> world \<Rightarrow> (exn + json) \<times> world" where
  "summarize_file env filename w =
     (let (r, w') = send env (VaultPost ''/summarize'' (Some (JObj [(''filename'', filename)]))) w
      in (response_json r, w'))"

definition create_summary_note :: "env \<Rightarrow> world \<Rightarrow> (exn + json) \<times> world" where
  "create_summary_note env w =
     (let (r, w') = send env (VaultPost ''/summary-note'' None) w in (response_json r, w'))"

definition FUNCTION_MAP :: "string list" where
  "FUNCTION_MAP = [''list_files'', ''summarize_file'', ''create_summary_note'']"

text \<open>
  \<^verbatim>\<open>FUNCTION_MAP[fn_name](**fn_args)\<close>: the arguments must be a mapping whose keys are
  exactly the parameters of the function, else the call raises \<^verbatim>\<open>TypeError\<close>.
\<close>

definition call_function :: "env \<Rightarrow> string \<Rightarrow> json \<Rightarrow> world \<Rightarrow> (exn + json) \<times> world" where
  "call_function env fn_name fn_args w =
     (case fn_args of
        JObj kwargs \<Rightarrow>
          if fn_name = ''list_files'' then
            (if kwargs = [] then list_files env w else (Inl TypeError, w))
          else if fn_name = ''summarize_file'' then
            (case kwargs of
               [(k, v)] \<Rightarrow> if k = ''filename'' then summarize_file env v w else (Inl TypeError, w)
             | _ \<Rightarrow> (Inl TypeError, w))
          else if fn_name = ''create_summary_note'' then
            (if kwargs = [] then create_summary_note env w else (Inl TypeError, w))
          else (Inl KeyError, w)
      | _ \<Rightarrow> (Inl TypeError, w))"

text \<open>Lines 143 to 151: the tool call of the first response, if any.\<close>

definition select_tool_call :: "json \<Rightarrow> exn + json option" where
  "select_tool_call data =
     andthen (py_get data ''message'' (JObj [])) (\<lambda>message.
     andthen (py_in ''tool_calls'' message) (\<lambda>has_calls.
       if has_calls then
         andthen (py_item message ''tool_calls'') (\<lambda>tool_calls.
           if truthy tool_calls then andthen (py_first tool_calls) (\<lambda>tc. Inr (Some tc))
           else Inr None)
       else
         andthen (py_in ''tool'' message) (\<lambda>has_tool.
           if has_tool then andthen (py_item message ''tool'') (\<lambda>tc. Inr (Some tc))
           else Inr None)))"

text \<open>\<^verbatim>\<open>x["message"]["content"]\<close>\<close>

definition message_content :: "json \<Rightarrow> exn + json" where
  "message_content x = andthen (py_item x ''message'') (\<lambda>m. py_item m ''content'')"

text \<open>
  The body of the \<^verbatim>\<open>try\<close> (lines 169 to 193): call the adapter, store and show the tool
  message, send the follow-up request without tools, store and show the reply.
\<close>

definition tool_round :: "env \<Rightarrow> string \<Rightarrow> json \<Rightarrow> world \<Rightarrow> (exn + unit) \<times> world" where
  "tool_round env fn_name fn_args w =
     (let (r, w1) = call_function env fn_name fn_args w in
      case r of
        Inl e \<Rightarrow> (Inl e, w1)
      | Inr result \<Rightarrow>
          let result_str = dumps env result;
              w2 = emit (ToolResult fn_name result_str)
                     (append_message
                        \<lparr>role = Tool, content = JStr result_str, name = Some fn_name\<rparr> w1);
              (followup, w3) = send env (ChatPost (messages w2) False) w2
          in case andthen (response_json followup) message_content of
               Inl e \<Rightarrow> (Inl e, w3)
             | Inr final_msg \<Rightarrow>
                 (Inr (),
                  emit (Markdown Assistant final_msg)
                    (append_message \<lparr>role = Assistant, content = final_msg, name = None\<rparr> w3)))"

text \<open>Lines 158 to 161: a string payload is parsed, a structured one is used as it is.\<close>

definition decode_args :: "env \<Rightarrow> json \<Rightarrow> exn + json" where
  "decode_args env args = (case args of JStr s \<Rightarrow> loads env s | _ \<Rightarrow> Inr args)"

text \<open>
  Lines 155 to 198. The result is the exception that ends the run, if one escapes: the
  name and argument lookups, \<^verbatim>\<open>json.loads\<close> and the membership test are outside the
  \<^verbatim>\<open>try\<close>.
\<close>

definition handle_tool_call :: "env \<Rightarrow> json \<Rightarrow> world \<Rightarrow> exn option \<times> world" where
  "handle_tool_call env tool_call w =
     (case andthen (py_item tool_call ''function'') (\<lambda>f. py_item f ''name'') of
        Inl e \<Rightarrow> (Some e, w)
      | Inr fn_name \<Rightarrow>
     (case andthen (py_item tool_call ''function'') (\<lambda>f. py_get f ''arguments'' (JStr ''{}'')) of
        Inl e \<Rightarrow> (Some e, w)
      | Inr args \<Rightarrow>
     (case decode_args env args of
        Inl e \<Rightarrow> (Some e, w)
      | Inr fn_args \<Rightarrow>
          let w1 = emit (CallingTool fn_name fn_args) w in
          (case fn_name of
             JStr n \<Rightarrow>
               if n \<in> set FUNCTION_MAP then
                 (case tool_round env n fn_args w1 of
                    (Inl e, w2) \<Rightarrow> (None, emit (ToolFailed n e) w2)
                  | (Inr u, w2) \<Rightarrow> (None, w2))
               else (None, emit (UnknownTool fn_name) w1)
           | JList xs \<Rightarrow> (Some TypeError, w1)
           | JObj kvs \<Rightarrow> (Some TypeError, w1)
           | _ \<Rightarrow> (None, emit (UnknownTool fn_name) w1)))))"

text \<open>Lines 200 to 205: no tool call, the reply of the model is stored and shown.\<close>

definition direct_reply :: "json \<Rightarrow> world \<Rightarrow> exn option \<times> world" where
  "direct_reply data w =
     (case message_content data of
        Inl e \<Rightarrow> (Some e, w)
      | Inr final_msg \<Rightarrow>
          (None,
           emit (Markdown Assistant final_msg)
             (append_message \<lparr>role = Assistant, content = final_msg, name = None\<rparr> w)))"

text \<open>Lines 142 to 205: what the script does with the decoded first response.\<close>

definition handle_response :: "env \<Rightarrow> json \<Rightarrow> world \<Rightarrow> exn option \<times> world" where
  "handle_response env data w =
     (case select_tool_call data of
        Inl e \<Rightarrow> (Some e, w)
      | Inr None \<Rightarrow> direct_reply data w
      | Inr (Some tool_call) \<Rightarrow>
          if truthy tool_call then handle_tool_call env tool_call w else direct_reply data w)"

text \<open>
  Lines 121 to 205: one run of the script on a submitted prompt (\<^verbatim>\<open>st.chat_input\<close> gives
  nothing on an empty one). The first request, its status check and its decoding are not
  inside any \<^verbatim>\<open>try\<close>.
\<close>

definition turn :: "env \<Rightarrow> string \<Rightarrow> world \<Rightarrow> exn option \<times> world" where
  "turn env prompt w =
     (if prompt = [] then (None, w)
      else
        let w1 = emit (Markdown User (JStr prompt))
                   (append_message \<lparr>role = User, content = JStr prompt, name = None\<rparr> w);
            (response, w2) = send env (ChatPost (messages w1) True) w1
        in case response_json response of
             Inl e \<Rightarrow> (Some e, w2)
           | Inr data \<Rightarrow> handle_response env data (emit (RawResponse data) w2))"

text \<open>Lines 105 to 115: the store of a new session.\<close>

definition system_prompt :: string where
  "system_prompt = ''You are an assistant for Obsidian that can call APIs via tools. If the user asks about files, summaries, or notes, you MUST call the appropriate tool. Never answer from your own knowledge when a tool exists.''"

definition initial_messages :: "message list" where
  "initial_messages = [\<lparr>role = System, content = JStr system_prompt, name = None\<rparr>]"

text \<open>
  The message lists a session can hold: the store persists from run to run, each run
  starts with no event and meets whatever the services answer.
\<close>

inductive reachable :: "message list \<Rightarrow> bool" where
  start: "reachable initial_messages"
| step: "reachable ms \<Longrightarrow>
         reachable (messages (snd (turn env prompt \<lparr>messages = ms, rerun = r, events = []\<rparr>)))"

section \<open>streamlit_mcp_chatbot.py: the service adapters\<close>

text \<open>
  What the scripts read of the Docker objects: the short id and the tags of an image; the
  name, the short id, the tags of the image (a property that asks the daemon, and may
  raise) and the status of a container. A client answers the five calls the adapters make;
  \<open>docker\<close> is the outcome of \<^verbatim>\<open>docker.from_env()\<close>.
\<close>

datatype image = Image (image_short_id: string) (image_tags: "string list")

datatype container =
  Container (container_name: string) (container_short_id: string)
    (container_image_tags: "exn + string list") (container_status: string)

record docker_client =
  images_list :: "exn + image list"
  containers_list :: "exn + container list"
  images_get :: "string \<Rightarrow> exn option"
  images_pull :: "string \<Rightarrow> exn option"
  containers_run :: "string \<Rightarrow> exn + container"

type_synonym docker = "exn + docker_client"

text \<open>Lines 26 to 35.\<close>

definition get_docker_client :: "env \<Rightarrow> docker \<Rightarrow> world \<Rightarrow> docker_client option \<times> world" where
  "get_docker_client env dk w =
     (case dk of
        Inr client \<Rightarrow> (Some client, w)
      | Inl e \<Rightarrow> (None, emit (ErrorBox (''Error connecting to Docker: '' @ str_exn env e)) w))"

text \<open>
  The two handlers of the adapters, \<^verbatim>\<open>except requests.exceptions.RequestException as e\<close> and
  \<^verbatim>\<open>except Exception as e\<close>, each returning a text that ends in \<^verbatim>\<open>str(e)\<close>.
\<close>

definition except_RequestException :: "env \<Rightarrow> string \<Rightarrow> exn + json \<Rightarrow> exn + json" where
  "except_RequestException env msg body =
     (case body of
        Inl e \<Rightarrow> if is_request_exception e then Inr (JStr (msg @ str_exn env e)) else Inl e
      | Inr v \<Rightarrow> Inr v)"

definition except_Exception :: "env \<Rightarrow> string \<Rightarrow> exn + json \<Rightarrow> exn + json" where
  "except_Exception env msg body =
     (case body of Inl e \<Rightarrow> Inr (JStr (msg @ str_exn env e)) | Inr v \<Rightarrow> Inr v)"

text \<open>The line feed, \<^verbatim>\<open>sep.join(xs)\<close>, and the loop that adds one bullet per item.\<close>

definition newline :: string where
  "newline = [CHR 0x0A]"

fun join :: "string \<Rightarrow> string list \<Rightarrow> string" where
  "join sep [] = []"
| "join sep [x] = x"
| "join sep (x # y # ys) = x @ sep @ join sep (y # ys)"

definition bullets :: "env \<Rightarrow> json list \<Rightarrow> string" where
  "bullets env items = concat (map (\<lambda>item. ''- `'' @ str_json env item @ ''`'' @ newline) items)"

text \<open>Lines 40 to 63.\<close>

definition list_files_in_vault :: "env \<Rightarrow> world \<Rightarrow> (exn + json) \<times> world" where
  "list_files_in_vault env w =
     (let (response, w') = send env (VaultGet ''/vault/'') w in
      (except_RequestException env ''Error listing files from Obsidian: ''
         (andthen (response_json response) (\<lambda>body.
          andthen (py_get body ''files'' (JList [])) (\<lambda>files.
            if \<not> truthy files then Inr (JStr ''No files found in the Obsidian vault.'')
            else andthen (py_iter files) (\<lambda>items.
              Inr (JStr (''### Obsidian Files'' @ newline @ bullets env items)))))),
       w'))"

text \<open>Lines 65 to 95.\<close>

definition list_files_in_dir :: "env \<Rightarrow> string \<Rightarrow> world \<Rightarrow> (exn + json) \<times> world" where
  "list_files_in_dir env directory w =
     (let (response, w') =
            send env (VaultPost ''/list_files_in_dir'' (Some (JObj [(''directory'', JStr directory)]))) w in
      (except_RequestException env ''Error listing files in directory from Obsidian: ''
         (andthen (response_json response) (\<lambda>body.
          andthen (py_get body ''files'' (JList [])) (\<lambda>files.
            if \<not> truthy files then Inr (JStr (''No files found in directory `'' @ directory @ ''`.''))
            else andthen (py_iter files) (\<lambda>items.
              Inr (JStr (''### Files in `'' @ directory @ ''`'' @ newline @ bullets env items)))))),
       w'))"

text \<open>Lines 97 to 119.\<close>

definition get_file_contents :: "env \<Rightarrow> string \<Rightarrow> world \<Rightarrow> (exn + json) \<times> world" where
  "get_file_contents env filepath w =
     (let (response, w') =
            send env (VaultPost ''/get_file_contents'' (Some (JObj [(''filepath'', JStr filepath)]))) w in
      (except_RequestException env ''Error reading file from Obsidian: ''
         (andthen (response_json response) (\<lambda>body.
          py_get body ''content'' (JStr ''File content not found.''))),
       w'))"

text \<open>Lines 121 to 144.\<close>

definition append_content :: "env \<Rightarrow> string \<Rightarrow> string \<Rightarrow> world \<Rightarrow> (exn + json) \<times> world" where
  "append_content env filepath content' w =
     (let (response, w') =
            send env (VaultPost ''/append_content''
              (Some (JObj [(''filepath'', JStr filepath), (''content'', JStr content')]))) w in
      (except_RequestException env ''Error appending content to Obsidian: ''
         (andthen (raise_for_status response) (\<lambda>ok. Inr (JStr ''Content successfully appended.''))),
       w'))"

text \<open>Lines 146 to 181.\<close>

definition patch_content ::
  "env \<Rightarrow> string \<Rightarrow> string \<Rightarrow> string \<Rightarrow> string \<Rightarrow> world \<Rightarrow> (exn + json) \<times> world" where
  "patch_content env filepath patch_type patch_target new_content w =
     (let payload = JObj [(''filepath'', JStr filepath),
            (''patch'', JObj [(''type'', JStr patch_type), (''target'', JStr patch_target),
               (''content'', JStr new_content)])];
          (response, w') = send env (VaultPost ''/patch_content'' (Some payload)) w in
      (except_RequestException env ''Error patching content to Obsidian: ''
         (andthen (raise_for_status response) (\<lambda>ok. Inr (JStr ''Content successfully patched.''))),
       w'))"

text \<open>Lines 183 to 214.\<close>

definition search_obsidian_vault :: "env \<Rightarrow> string \<Rightarrow> world \<Rightarrow> (exn + json) \<times> world" where
  "search_obsidian_vault env query w =
     (let (response, w') = send env (VaultPost ''/search'' (Some (JObj [(''query'', JStr query)]))) w in
      (except_RequestException env ''Error searching Obsidian vault: ''
         (andthen (response_json response) (\<lambda>body.
          andthen (py_get body ''results'' (JList [])) (\<lambda>results.
            if \<not> truthy results then Inr (JStr (''No results found for query `'' @ query @ ''`.''))
            else andthen (py_iter results) (\<lambda>items.
              Inr (JStr (''### Search Results for `'' @ query @ ''`'' @ newline @ bullets env items)))))),
       w'))"

text \<open>Lines 216 to 238.\<close>

definition delete_obsidian_file :: "env \<Rightarrow> string \<Rightarrow> world \<Rightarrow> (exn + json) \<times> world" where
  "delete_obsidian_file env filepath w =
     (let (response, w') =
            send env (VaultPost ''/delete_file'' (Some (JObj [(''filepath'', JStr filepath)]))) w in
      (except_RequestException env ''Error deleting file from Obsidian: ''
         (andthen (raise_for_status response) (\<lambda>ok.
            Inr (JStr (''File `'' @ filepath @ ''` successfully deleted.'')))),
       w'))"

text \<open>Lines 242 to 257.\<close>

definition image_lines :: "image \<Rightarrow> string" where
  "image_lines img =
     ''- **ID:** `'' @ image_short_id img @ ''`'' @ newline @
     ''  - **Tags:** `'' @ join '', '' (image_tags img) @ ''`'' @ newline"

definition list_docker_images :: "env \<Rightarrow> docker \<Rightarrow> world \<Rightarrow> (exn + json) \<times> world" where
  "list_docker_images env dk w =
     (let (client, w') = get_docker_client env dk w in
      case client of
        None \<Rightarrow> (Inr (JStr ''Failed to connect to Docker.''), w')
      | Some c \<Rightarrow>
          (except_Exception env ''Error listing images: ''
             (andthen (images_list c) (\<lambda>images.
                if images = [] then Inr (JStr ''No Docker images found.'')
                else Inr (JStr (''### Docker Images'' @ newline @ concat (map image_lines images))))),
           w'))"

text \<open>
  Lines 259 to 276. The loop reads \<^verbatim>\<open>container.image\<close> once per container, in order; the
  first failure ends it.
\<close>

fun container_lines :: "container list \<Rightarrow> exn + string" where
  "container_lines [] = Inr []"
| "container_lines (c # cs) =
     andthen (container_image_tags c) (\<lambda>tags.
     andthen (container_lines cs) (\<lambda>rest.
       Inr (''- **Name:** `'' @ container_name c @ ''`'' @ newline @
            ''  - **ID:** `'' @ container_short_id c @ ''`'' @ newline @
            ''  - **Image:** `'' @ (case tags of [] \<Rightarrow> ''N/A'' | t # ts \<Rightarrow> t) @ ''`'' @ newline @
            ''  - **Status:** `'' @ container_status c @ ''`'' @ newline @ rest)))"

definition list_docker_containers :: "env \<Rightarrow> docker \<Rightarrow> world \<Rightarrow> (exn + json) \<times> world" where
  "list_docker_containers env dk w =
     (let (client, w') = get_docker_client env dk w in
      case client of
        None \<Rightarrow> (Inr (JStr ''Failed to connect to Docker.''), w')
      | Some c \<Rightarrow>
          (except_Exception env ''Error listing containers: ''
             (andthen (containers_list c) (\<lambda>containers.
                if containers = [] then Inr (JStr ''No running containers found.'')
                else andthen (container_lines containers) (\<lambda>lines.
                  Inr (JStr (''### Running Docker Containers'' @ newline @ lines))))),
           w'))"

text \<open>
  Lines 278 to 314. The two progress messages go to the conversation store (lines 299 and
  306) and the \<^verbatim>\<open>rerun\<close> attribute is set (line 300) before the image is looked up; the
  handlers turn every exception into the returned text.
\<close>

definition creating_message :: "string \<Rightarrow> message" where
  "creating_message image_name =
     \<lparr>role = Assistant,
      content = JStr (''Creating container from image `'' @ image_name @ ''`...''), name = None\<rparr>"

definition pulling_message :: "string \<Rightarrow> message" where
  "pulling_message image_name =
     \<lparr>role = Assistant,
      content = JStr (''Image `'' @ image_name @ ''` not found locally. Pulling from Docker Hub...''),
      name = None\<rparr>"

definition create_failed :: "env \<Rightarrow> string \<Rightarrow> exn \<Rightarrow> json" where
  "create_failed env image_name e =
     (if e = ImageNotFound then JStr (''Error: Image `'' @ image_name @ ''` not found on Docker Hub.'')
      else JStr (''Error creating container: '' @ str_exn env e))"

definition create_docker_container :: "env \<Rightarrow> docker \<Rightarrow> string \<Rightarrow> world \<Rightarrow> (exn + json) \<times> world" where
  "create_docker_container env dk image_name w =
     (let (client, w1) = get_docker_client env dk w in
      case client of
        None \<Rightarrow> (Inr (JStr ''Failed to connect to Docker.''), w1)
      | Some c \<Rightarrow>
          let w2 = (append_message (creating_message image_name) w1)\<lparr>rerun := True\<rparr>;
              (raised, w3) =
                (case images_get c image_name of
                   None \<Rightarrow> (None, w2)
                 | Some e \<Rightarrow>
                     if e = ImageNotFound
                     then (images_pull c image_name, append_message (pulling_message image_name) w2)
                     else (Some e, w2))
          in case raised of
               Some e \<Rightarrow> (Inr (create_failed env image_name e), w3)
             | None \<Rightarrow>
                 (case containers_run c image_name of
                    Inl e \<Rightarrow> (Inr (create_failed env image_name e), w3)
                  | Inr container \<Rightarrow>
                      (Inr (JStr (''Container `'' @ container_name container @
                         ''` successfully created and started from `'' @ image_name @
                         ''`. ID: `'' @ container_short_id container @ ''`'')), w3)))"

text \<open>
  Lines 336 to 390: the adapter call a branch of the dispatch ends in, if any (the other
  branches give a fixed text).
\<close>

fun call_adapter :: "env \<Rightarrow> docker \<Rightarrow> command \<Rightarrow> world \<Rightarrow> ((exn + json) \<times> world) option" where
  "call_adapter env dk ListAll w = Some (list_files_in_vault env w)"
| "call_adapter env dk (ListDir directory) w = Some (list_files_in_dir env directory w)"
| "call_adapter env dk (GetContent filepath) w = Some (get_file_contents env filepath w)"
| "call_adapter env dk (Append filepath content') w = Some (append_content env filepath content' w)"
| "call_adapter env dk (Patch filepath patch_type patch_target new_content) w =
     Some (patch_content env filepath patch_type patch_target new_content w)"
| "call_adapter env dk (Search query) w = Some (search_obsidian_vault env query w)"
| "call_adapter env dk (Delete filepath) w = Some (delete_obsidian_file env filepath w)"
| "call_adapter env dk DockerListImages w = Some (list_docker_images env dk w)"
| "call_adapter env dk DockerListContainers w = Some (list_docker_containers env dk w)"
| "call_adapter env dk (DockerCreate image_name) w = Some (create_docker_container env dk image_name w)"
| "call_adapter env dk _ w = None"

fun is_docker_create :: "command \<Rightarrow> bool" where
  "is_docker_create (DockerCreate image_name) = True"
| "is_docker_create _ = False"

section \<open>Observations on a run\<close>

text \<open>The number of inference requests among the events of a run.\<close>

fun is_chat_post :: "event \<Rightarrow> bool" where
  "is_chat_post (Sent (ChatPost ms tools)) = True"
| "is_chat_post _ = False"

definition chat_posts :: "event list \<Rightarrow> nat" where
  "chat_posts evs = length (filter is_chat_post evs)"

text \<open>
  \<open>tool_messages_placed r prev ms\<close>: in \<open>ms\<close>, read after a message of role \<open>prev\<close>, every
  tool message comes right after a message of role \<open>r\<close>, and what comes right after it, if
  anything, is an assistant or a user message.
\<close>

fun tool_messages_placed :: "role \<Rightarrow> role option \<Rightarrow> message list \<Rightarrow> bool" where
  "tool_messages_placed r prev [] = True"
| "tool_messages_placed r prev (m # ms) =
     ((if role m = Tool
       then prev = Some r \<and>
         (case ms of [] \<Rightarrow> True | n # rest \<Rightarrow> role n = Assistant \<or> role n = User)
       else True) \<and>
      tool_messages_placed r (Some (role m)) ms)"

text \<open>
  \<open>appended shapes before after\<close>: the store \<open>after\<close> is the store \<open>before\<close> with new messages at
  its end, whose roles are one of the sequences in \<open>shapes\<close>.
\<close>

definition appended :: "role list set \<Rightarrow> message list \<Rightarrow> message list \<Rightarrow> bool" where
  "appended shapes before after \<longleftrightarrow> (\<exists>new. after = before @ new \<and> map role new \<in> shapes)"

text \<open>The messages a turn stores.\<close>

definition user_message :: "string \<Rightarrow> message" where
  "user_message prompt = \<lparr>role = User, content = JStr prompt, name = None\<rparr>"

definition tool_message :: "string \<Rightarrow> string \<Rightarrow> message" where
  "tool_message fn_name result_str = \<lparr>role = Tool, content = JStr result_str, name = Some fn_name\<rparr>"

definition assistant_message :: "json \<Rightarrow> message" where
  "assistant_message final_msg = \<lparr>role = Assistant, content = final_msg, name = None\<rparr>"

section \<open>Sample services for the examples\<close>

text \<open>
  A world whose inference server answers \<open>first\<close> to the request with tools and \<open>second\<close>
  to the one without, and whose vault answers \<open>vault\<close>. \<open>sample_loads\<close> and \<open>sample_dumps\<close>
  agree with \<^verbatim>\<open>json.loads\<close> and \<^verbatim>\<open>json.dumps\<close> on the values the examples use.
\<close>

definition filename_payload :: string where
  "filename_payload =
     ''{'' @ [CHR 0x22] @ ''filename'' @ [CHR 0x22] @ '': '' @ [CHR 0x22] @ ''a.md'' @ [CHR 0x22] @ ''}''"

definition sample_loads :: "string \<Rightarrow> exn + json" where
  "sample_loads s =
     (if s = ''{}'' then Inr (JObj [])
      else if s = filename_payload then Inr (JObj [(''filename'', JStr ''a.md'')])
      else if s = ''[1]'' then Inr (JList [JNum 1])
      else Inl JSONDecodeError)"

definition sample_dumps :: "json \<Rightarrow> string" where
  "sample_dumps j =
     (if j = JList [] then ''[]''
      else if j = JStr ''ok'' then [CHR 0x22] @ ''ok'' @ [CHR 0x22]
      else ''null'')"

definition scripted :: "http_reply \<Rightarrow> http_reply \<Rightarrow> http_reply \<Rightarrow> env" where
  "scripted first second vault =
     \<lparr>http = (\<lambda>rq. case rq of ChatPost ms tools \<Rightarrow> if tools then first else second | _ \<Rightarrow> vault),
      loads = sample_loads, dumps = sample_dumps,
      str_json = (\<lambda>j. case j of JStr s \<Rightarrow> s | _ \<Rightarrow> ''?''),
      str_exn = (\<lambda>e. ''error'')\<rparr>"

text \<open>A first response that asks for one tool, and a response that is plain text.\<close>

definition tool_call_response :: "json \<Rightarrow> json \<Rightarrow> json" where
  "tool_call_response fn_name args =
     JObj [(''message'', JObj [(''role'', JStr ''assistant''), (''content'', JStr ''done''),
        (''tool_calls'',
           JList [JObj [(''function'', JObj [(''name'', fn_name), (''arguments'', args)])]])])]"

definition text_response :: "string \<Rightarrow> json" where
  "text_response s = JObj [(''message'', JObj [(''role'', JStr ''assistant''), (''content'', JStr s)])]"

definition new_session :: world where
  "new_session = \<lparr>messages = initial_messages, rerun = False, events = []\<rparr>"

text \<open>A first response without \<^verbatim>\<open>tool_calls\<close> whose message has the single \<^verbatim>\<open>tool\<close> entry.\<close>

definition legacy_tool_response :: "json \<Rightarrow> json \<Rightarrow> json" where
  "legacy_tool_response fn_name args =
     JObj [(''message'', JObj [(''role'', JStr ''assistant''), (''content'', JStr ''done''),
        (''tool'', JObj [(''function'', JObj [(''name'', fn_name), (''arguments'', args)])])])]"

text \<open>
  Four worlds: the model asks for the file list of an empty vault and then summarises it;
  the same with the follow-up request answered by a server error; the model asks for a
  tool that is not registered; the model sends arguments that are not JSON.
\<close>

definition listing_env :: env where
  "listing_env =
     scripted (Reply 200 (Some (tool_call_response (JStr ''list_files'') (JObj []))))
              (Reply 200 (Some (text_response ''Your vault is empty.'')))
              (Reply 200 (Some (JList [])))"

definition followup_down_env :: env where
  "followup_down_env =
     scripted (Reply 200 (Some (tool_call_response (JStr ''list_files'') (JObj []))))
              (Reply 500 None)
              (Reply 200 (Some (JList [])))"

definition unknown_tool_env :: env where
  "unknown_tool_env =
     scripted (Reply 200 (Some (tool_call_response (JStr ''delete_everything'') (JObj []))))
              (Reply 200 (Some (text_response ''Done.'')))
              (Reply 200 (Some (JList [])))"

definition bad_arguments_env :: env where
  "bad_arguments_env =
     scripted (Reply 200 (Some (tool_call_response (JStr ''summarize_file'') (JStr ''not json''))))
              (Reply 200 (Some (text_response ''Done.'')))
              (Reply 200 (Some (JStr ''ok'')))"

definition server_down_env :: env where
  "server_down_env = scripted (Raises ''connection refused'') (Raises ''connection refused'')
     (Raises ''connection refused'')"

text \<open>A world whose model answers in plain text.\<close>

definition hello_env :: env where
  "hello_env = scripted (Reply 200 (Some (text_response ''Hello.''))) (Raises ''down'') (Raises ''down'')"

text \<open>
  Two more worlds: the model asks for the summary of \<^verbatim>\<open>a.md\<close> with the filename in a
  serialized payload; the model sends a payload that is JSON but not a mapping.
\<close>

definition summarize_env :: env where
  "summarize_env =
     scripted (Reply 200 (Some (tool_call_response (JStr ''summarize_file'') (JStr filename_payload))))
              (Reply 200 (Some (text_response ''It is a note.'')))
              (Reply 200 (Some (JStr ''ok'')))"

definition list_arguments_env :: env where
  "list_arguments_env =
     scripted (Reply 200 (Some (tool_call_response (JStr ''summarize_file'') (JStr ''[1]''))))
              (Reply 200 (Some (text_response ''Done.'')))
              (Reply 200 (Some (JStr ''ok'')))"

text \<open>
  A Docker daemon that holds the image \<^verbatim>\<open>nginx\<close>, can pull \<^verbatim>\<open>redis\<close> and knows no other
  image, and the store of the command script after the user's line.
\<close>

definition sample_client :: docker_client where
  "sample_client =
     \<lparr>images_list = Inr [Image ''abc'' [''nginx:latest'']],
      containers_list = Inr [],
      images_get = (\<lambda>n. if n = ''nginx'' then None else Some ImageNotFound),
      images_pull = (\<lambda>n. if n = ''redis'' then None else Some ImageNotFound),
      containers_run = (\<lambda>n. Inr (Container ''c1'' ''def'' (Inr [n]) ''created''))\<rparr>"

definition command_session :: "string \<Rightarrow> world" where
  "command_session prompt = \<lparr>messages = [user_message prompt], rerun = False, events = []\<rparr>"

text \<open>A vault that lists one file, whatever the directory.\<close>

definition vault_env :: env where
  "vault_env =
     scripted (Raises ''down'') (Raises ''down'')
       (Reply 200 (Some (JObj [(''files'', JList [JStr ''a.md''])])))"

section \<open>Properties of the string methods and of the parser\<close>

lemma startswith_append [simp]: "startswith (p @ r) p"
  by (simp add: startswith_def)

lemma isspace_lower_char [simp]: "isspace (lower_char c) = isspace c"
  by (auto simp add: isspace_def lower_char_def isupper_def Let_def)

lemma not_isupper_lower_char [simp]: "\<not> isupper (lower_char c)"
  by (auto simp add: lower_char_def isupper_def Let_def)

lemma split_startswith: "startswith s p \<Longrightarrow> p \<noteq> [] \<Longrightarrow> split p (Suc 0) s = [[], drop (length p) s]"
  by (cases s) (auto simp add: startswith_def)

lemma remainder_startswith: "startswith s p \<Longrightarrow> p \<noteq> [] \<Longrightarrow> remainder s p = Inr (strip (drop (length p) s))"
  by (simp add: remainder_def split_startswith index_def andthen_def del: split.simps)

lemma index_error: "index xs i = Inl e \<Longrightarrow> e = IndexError"
  by (auto simp add: index_def split: if_splits)


lemma lower_append: "lower (a @ b) = lower a @ lower b"
  by (simp add: lower_def)

lemma lstrip_nonspace: "s \<noteq> [] \<Longrightarrow> \<not> isspace (hd s) \<Longrightarrow> lstrip (s @ r) = s @ r"
  by (cases s) (simp_all add: lstrip_def)

lemma rstrip_append: "s \<noteq> [] \<Longrightarrow> \<not> isspace (last s) \<Longrightarrow> rstrip (s @ r) = s @ rstrip r"
  by (cases s rule: rev_cases) (auto simp add: rstrip_def dropWhile_append)

lemma strip_append: "s \<noteq> [] \<Longrightarrow> \<not> isspace (hd s) \<Longrightarrow> \<not> isspace (last s) \<Longrightarrow> strip (s @ r) = s @ rstrip r"
  by (simp add: strip_def lstrip_nonspace rstrip_append)

lemma rstrip_Nil [simp]: "rstrip [] = []"
  by (simp add: rstrip_def)

lemma rstrip_spaces: "\<forall>c\<in>set ws. isspace c \<Longrightarrow> rstrip ws = []"
  by (simp add: rstrip_def)

lemma strip_stable: "s \<noteq> [] \<Longrightarrow> \<not> isspace (hd s) \<Longrightarrow> \<not> isspace (last s) \<Longrightarrow> strip s = s"
  using strip_append [of s "[]"] by simp

lemma set_strip: "set (strip s) \<subseteq> set s"
proof
  fix x assume "x \<in> set (strip s)"
  then have "x \<in> set (dropWhile isspace (rev (dropWhile isspace s)))"
    by (simp add: strip_def lstrip_def rstrip_def)
  then have "x \<in> set (dropWhile isspace s)"
    using set_dropWhileD by fastforce
  then show "x \<in> set s"
    by (rule set_dropWhileD)
qed

lemma break_at_set: "break_at sep s = Some (a, b) \<Longrightarrow> set a \<subseteq> set s \<and> set b \<subseteq> set s"
  by (induction s arbitrary: a) (auto split: if_splits dest: in_set_dropD)

lemma split_set: "x \<in> set (split sep n s) \<Longrightarrow> set x \<subseteq> set s"
  by (induction n arbitrary: s) (auto split: option.splits dest!: break_at_set)


lemma except_IndexError_total:
  "(\<And>e. body = Inl e \<Longrightarrow> e = IndexError) \<Longrightarrow> \<exists>c. except_IndexError body u = Inr c"
  by (cases body) (auto simp add: except_IndexError_def)

lemma andthen_index_error:
  "(\<And>x e. f x = Inl e \<Longrightarrow> e = IndexError) \<Longrightarrow> andthen (index xs i) f = Inl e \<Longrightarrow> e = IndexError"
  by (auto simp add: andthen_def dest: index_error split: sum.splits)

lemma if_total:
  "(c \<Longrightarrow> \<exists>x. a = Inr x) \<Longrightarrow> (\<not> c \<Longrightarrow> \<exists>x. b = Inr x) \<Longrightarrow> \<exists>x. (if c then a else b) = Inr x"
  by simp

lemma parse_total: "\<exists>c. parse_command p = Inr c"
proof -
  define command where "command = lower (strip p)"
  have one: "\<And>kw f. startswith command kw \<Longrightarrow> kw \<noteq> [] \<Longrightarrow>
      \<exists>c. andthen (remainder command kw) (\<lambda>x. Inr (f x)) = Inr c"
    by (simp add: remainder_startswith andthen_def)
  have app: "\<And>kw. startswith command kw \<Longrightarrow> kw \<noteq> [] \<Longrightarrow>
      \<exists>c. except_IndexError
         (andthen (remainder command kw) (\<lambda>r.
            let parts = split '' '' 1 r in
            andthen (index parts 0) (\<lambda>filepath.
            andthen (index parts 1) (\<lambda>content.
            Inr (Append filepath content)))))
         UsageAppend = Inr c"
    by (rule except_IndexError_total)
       (auto simp add: remainder_startswith andthen_def Let_def simp del: split.simps
             dest: index_error split: sum.splits)
  have pat: "\<And>kw. startswith command kw \<Longrightarrow> kw \<noteq> [] \<Longrightarrow>
      \<exists>c. except_IndexError
         (andthen (remainder command kw) (\<lambda>r.
            let parts = split '' '' 3 r in
            andthen (index parts 0) (\<lambda>filepath.
            andthen (index parts 1) (\<lambda>patch_type.
            andthen (index parts 2) (\<lambda>patch_target.
            andthen (index parts 3) (\<lambda>new_content.
            Inr (Patch filepath patch_type patch_target new_content)))))))
         UsagePatch = Inr c"
    by (rule except_IndexError_total)
       (auto simp add: remainder_startswith andthen_def Let_def simp del: split.simps
             dest: index_error split: sum.splits)
  show ?thesis
    unfolding parse_command_def Let_def command_def [symmetric]
    by (intro if_total one app [unfolded Let_def] pat [unfolded Let_def]; (assumption | simp))
qed


lemma normalize_keyword:
  "kw \<noteq> [] \<Longrightarrow> \<not> isspace (hd kw) \<Longrightarrow> \<not> isspace (last kw) \<Longrightarrow> lower kw = kw \<Longrightarrow>
   lower (strip (kw @ rest)) = kw @ lower (rstrip rest)"
  by (simp add: strip_append lower_append)

lemma lower_char_simps [simp]:
  "lower_char CHR ''/'' = CHR ''/''" "lower_char CHR ''_'' = CHR ''_''" "lower_char CHR '' '' = CHR '' ''"
  "lower_char CHR ''a'' = CHR ''a''" "lower_char CHR ''b'' = CHR ''b''" "lower_char CHR ''c'' = CHR ''c''"
  "lower_char CHR ''d'' = CHR ''d''" "lower_char CHR ''e'' = CHR ''e''" "lower_char CHR ''g'' = CHR ''g''"
  "lower_char CHR ''h'' = CHR ''h''" "lower_char CHR ''i'' = CHR ''i''" "lower_char CHR ''k'' = CHR ''k''"
  "lower_char CHR ''l'' = CHR ''l''" "lower_char CHR ''m'' = CHR ''m''" "lower_char CHR ''n'' = CHR ''n''"
  "lower_char CHR ''o'' = CHR ''o''" "lower_char CHR ''p'' = CHR ''p''" "lower_char CHR ''r'' = CHR ''r''"
  "lower_char CHR ''s'' = CHR ''s''" "lower_char CHR ''t'' = CHR ''t''"
  by (simp_all add: lower_char_def isupper_def)

text \<open>
  C10: the zero-argument commands are matched by a bare prefix test, with no delimiter
  required after the keyword. Whatever follows \<^verbatim>\<open>/help\<close>, \<^verbatim>\<open>/obsidian_list_all\<close>,
  \<^verbatim>\<open>/docker_list_images\<close> or \<^verbatim>\<open>/docker_list_containers\<close> in the input (for example
  \<^verbatim>\<open>/helpxyz\<close>), the input dispatches to that command and not to the
  unrecognized-command reply.
\<close>

theorem zero_argument_keyword_prefix:
  "parse_command (''/help'' @ rest) = Inr Help \<and>
   parse_command (''/obsidian_list_all'' @ rest) = Inr ListAll \<and>
   parse_command (''/docker_list_images'' @ rest) = Inr DockerListImages \<and>
   parse_command (''/docker_list_containers'' @ rest) = Inr DockerListContainers"
proof -
  have 1: "lower (strip (''/help'' @ rest)) = ''/help'' @ lower (rstrip rest)"
    by (rule normalize_keyword) (simp_all add: isspace_def lower_def)
  have 2: "lower (strip (''/obsidian_list_all'' @ rest)) = ''/obsidian_list_all'' @ lower (rstrip rest)"
    by (rule normalize_keyword) (simp_all add: isspace_def lower_def)
  have 3: "lower (strip (''/docker_list_images'' @ rest)) = ''/docker_list_images'' @ lower (rstrip rest)"
    by (rule normalize_keyword) (simp_all add: isspace_def lower_def)
  have 4: "lower (strip (''/docker_list_containers'' @ rest)) = ''/docker_list_containers'' @ lower (rstrip rest)"
    by (rule normalize_keyword) (simp_all add: isspace_def lower_def)
  have a: "parse_command (''/help'' @ rest) = Inr Help"
    unfolding parse_command_def 1 by (simp add: startswith_def)
  have b: "parse_command (''/obsidian_list_all'' @ rest) = Inr ListAll"
    unfolding parse_command_def 2 by (simp add: startswith_def)
  have c: "parse_command (''/docker_list_images'' @ rest) = Inr DockerListImages"
    unfolding parse_command_def 3 by (simp add: startswith_def)
  have d: "parse_command (''/docker_list_containers'' @ rest) = Inr DockerListContainers"
    unfolding parse_command_def 4 by (simp add: startswith_def)
  from a b c d show ?thesis by blast
qed













lemma final_argument_lower: "final_argument a \<Longrightarrow> final_argument (lower a)"
  by (simp add: final_argument_def lower_def hd_map last_map)

lemma single_argument_lower: "single_argument a \<Longrightarrow> single_argument (lower a)"
  by (simp add: single_argument_def lower_def)

lemma single_final: "single_argument a \<Longrightarrow> final_argument a"
  by (simp add: single_argument_def final_argument_def)

lemma single_then_final: "single_argument a \<Longrightarrow> final_argument b \<Longrightarrow> final_argument (a @ '' '' @ b)"
  by (cases a) (simp_all add: single_argument_def final_argument_def)

lemma strip_final: "final_argument a \<Longrightarrow> strip a = a"
  by (simp add: final_argument_def strip_stable)

lemma no_space: "single_argument a \<Longrightarrow> CHR '' '' \<notin> set a"
  by (auto simp add: single_argument_def isspace_def)

lemma break_at_space: "CHR '' '' \<notin> set a \<Longrightarrow> break_at '' '' (a @ CHR '' '' # b) = Some (a, b)"
  by (induction a) (auto simp add: startswith_def)

lemma break_at_none: "CHR '' '' \<notin> set a \<Longrightarrow> break_at '' '' a = None"
  by (induction a) (auto simp add: startswith_def)

lemma remainder_keyword: "kw \<noteq> [] \<Longrightarrow> remainder (kw @ y) kw = Inr (strip y)"
  by (simp add: remainder_startswith)

lemma normalize_prefixed:
  "kw \<noteq> [] \<Longrightarrow> \<not> isspace (hd kw) \<Longrightarrow> lower kw = kw \<Longrightarrow> final_argument x \<Longrightarrow>
   lower (strip (kw @ x)) = kw @ lower x"
  using strip_append [of "kw @ x" "[]"] by (simp add: final_argument_def lower_append)

lemma parse_list_dir:
  assumes "final_argument a"
  shows "parse_command (''/obsidian_list_dir '' @ a) = Inr (ListDir (lower a))"
proof -
  have n: "lower (strip (''/obsidian_list_dir '' @ a)) = ''/obsidian_list_dir '' @ lower a"
    by (rule normalize_prefixed) (simp_all add: isspace_def lower_def assms)
  have r: "remainder (''/obsidian_list_dir '' @ lower a) ''/obsidian_list_dir '' = Inr (lower a)"
    using remainder_keyword [of "''/obsidian_list_dir ''" "lower a"]
    by (simp add: strip_final final_argument_lower assms)
  show ?thesis
    unfolding parse_command_def n Let_def r by (simp add: startswith_def andthen_def)
qed

lemma parse_get_content:
  assumes "final_argument a"
  shows "parse_command (''/obsidian_get_content '' @ a) = Inr (GetContent (lower a))"
proof -
  have n: "lower (strip (''/obsidian_get_content '' @ a)) = ''/obsidian_get_content '' @ lower a"
    by (rule normalize_prefixed) (simp_all add: isspace_def lower_def assms)
  have r: "remainder (''/obsidian_get_content '' @ lower a) ''/obsidian_get_content '' = Inr (lower a)"
    using remainder_keyword [of "''/obsidian_get_content ''" "lower a"]
    by (simp add: strip_final final_argument_lower assms)
  show ?thesis
    unfolding parse_command_def n Let_def r by (simp add: startswith_def andthen_def)
qed

lemma parse_search:
  assumes "final_argument a"
  shows "parse_command (''/obsidian_search '' @ a) = Inr (Search (lower a))"
proof -
  have n: "lower (strip (''/obsidian_search '' @ a)) = ''/obsidian_search '' @ lower a"
    by (rule normalize_prefixed) (simp_all add: isspace_def lower_def assms)
  have r: "remainder (''/obsidian_search '' @ lower a) ''/obsidian_search '' = Inr (lower a)"
    using remainder_keyword [of "''/obsidian_search ''" "lower a"]
    by (simp add: strip_final final_argument_lower assms)
  show ?thesis
    unfolding parse_command_def n Let_def r by (simp add: startswith_def andthen_def)
qed

lemma parse_delete:
  assumes "final_argument a"
  shows "parse_command (''/obsidian_delete '' @ a) = Inr (Delete (lower a))"
proof -
  have n: "lower (strip (''/obsidian_delete '' @ a)) = ''/obsidian_delete '' @ lower a"
    by (rule normalize_prefixed) (simp_all add: isspace_def lower_def assms)
  have r: "remainder (''/obsidian_delete '' @ lower a) ''/obsidian_delete '' = Inr (lower a)"
    using remainder_keyword [of "''/obsidian_delete ''" "lower a"]
    by (simp add: strip_final final_argument_lower assms)
  show ?thesis
    unfolding parse_command_def n Let_def r by (simp add: startswith_def andthen_def)
qed

lemma parse_docker_create:
  assumes "final_argument a"
  shows "parse_command (''/docker_create '' @ a) = Inr (DockerCreate (lower a))"
proof -
  have n: "lower (strip (''/docker_create '' @ a)) = ''/docker_create '' @ lower a"
    by (rule normalize_prefixed) (simp_all add: isspace_def lower_def assms)
  have r: "remainder (''/docker_create '' @ lower a) ''/docker_create '' = Inr (lower a)"
    using remainder_keyword [of "''/docker_create ''" "lower a"]
    by (simp add: strip_final final_argument_lower assms)
  show ?thesis
    unfolding parse_command_def n Let_def r by (simp add: startswith_def andthen_def)
qed

lemma lower_spaced: "lower (a @ '' '' @ b) = lower a @ '' '' @ lower b"
  by (simp add: lower_def)

lemma split_two:
  "single_argument a \<Longrightarrow> split '' '' 1 (a @ '' '' @ b) = [a, b]"
  by (simp add: break_at_space no_space)

lemma split_one:
  "single_argument a \<Longrightarrow> split '' '' n a = [a]"
  by (cases n) (simp_all add: break_at_none no_space)

lemma split_four:
  "single_argument a \<Longrightarrow> single_argument b \<Longrightarrow> single_argument c \<Longrightarrow>
   split '' '' 3 (a @ '' '' @ b @ '' '' @ c @ '' '' @ d) = [a, b, c, d]"
  by (simp add: numeral_3_eq_3 break_at_space no_space)

lemma split_three:
  "single_argument a \<Longrightarrow> single_argument b \<Longrightarrow> single_argument c \<Longrightarrow>
   split '' '' 3 (a @ '' '' @ b @ '' '' @ c) = [a, b, c]"
  by (simp add: numeral_3_eq_3 break_at_space break_at_none no_space)

lemma parse_append:
  assumes "single_argument a" "final_argument b"
  shows "parse_command (''/obsidian_append '' @ a @ '' '' @ b) = Inr (Append (lower a) (lower b))"
proof -
  have n: "lower (strip (''/obsidian_append '' @ a @ '' '' @ b)) = ''/obsidian_append '' @ lower (a @ '' '' @ b)"
    by (rule normalize_prefixed [OF _ _ _ single_then_final [OF assms]]) (simp_all add: isspace_def lower_def)
  have r: "remainder (''/obsidian_append '' @ lower (a @ '' '' @ b)) ''/obsidian_append ''
      = Inr (lower a @ '' '' @ lower b)"
    using final_argument_lower [OF single_then_final [OF assms]]
      remainder_keyword [of "''/obsidian_append ''" "lower (a @ '' '' @ b)"]
    by (simp add: strip_final lower_def)
  have s: "split '' '' 1 (lower a @ '' '' @ lower b) = [lower a, lower b]"
    by (rule split_two) (simp add: single_argument_lower assms)
  show ?thesis
    unfolding parse_command_def n Let_def r using s
    by (simp add: startswith_def andthen_def index_def except_IndexError_def del: split.simps)
qed

lemma parse_append_usage:
  assumes "single_argument a"
  shows "parse_command (''/obsidian_append '' @ a) = Inr UsageAppend"
proof -
  have n: "lower (strip (''/obsidian_append '' @ a)) = ''/obsidian_append '' @ lower a"
    by (rule normalize_prefixed) (simp_all add: isspace_def lower_def single_final assms)
  have r: "remainder (''/obsidian_append '' @ lower a) ''/obsidian_append '' = Inr (lower a)"
    using remainder_keyword [of "''/obsidian_append ''" "lower a"]
    by (simp add: strip_final final_argument_lower single_final assms)
  have s: "split '' '' 1 (lower a) = [lower a]"
    by (rule split_one) (simp add: single_argument_lower assms)
  show ?thesis
    unfolding parse_command_def n Let_def r using s
    by (simp add: startswith_def andthen_def index_def except_IndexError_def del: split.simps)
qed

lemma parse_patch:
  assumes "single_argument a" "single_argument b" "single_argument c" "final_argument d"
  shows "parse_command (''/obsidian_patch '' @ a @ '' '' @ b @ '' '' @ c @ '' '' @ d)
     = Inr (Patch (lower a) (lower b) (lower c) (lower d))"
proof -
  have f: "final_argument (a @ '' '' @ b @ '' '' @ c @ '' '' @ d)"
    by (intro single_then_final assms)
  have n: "lower (strip (''/obsidian_patch '' @ a @ '' '' @ b @ '' '' @ c @ '' '' @ d))
      = ''/obsidian_patch '' @ lower (a @ '' '' @ b @ '' '' @ c @ '' '' @ d)"
    by (rule normalize_prefixed [OF _ _ _ f]) (simp_all add: isspace_def lower_def)
  have r: "remainder (''/obsidian_patch '' @ lower (a @ '' '' @ b @ '' '' @ c @ '' '' @ d)) ''/obsidian_patch ''
      = Inr (lower a @ '' '' @ lower b @ '' '' @ lower c @ '' '' @ lower d)"
    using final_argument_lower [OF f]
      remainder_keyword [of "''/obsidian_patch ''" "lower (a @ '' '' @ b @ '' '' @ c @ '' '' @ d)"]
    by (simp add: strip_final lower_def)
  have s: "split '' '' 3 (lower a @ '' '' @ lower b @ '' '' @ lower c @ '' '' @ lower d)
      = [lower a, lower b, lower c, lower d]"
    by (rule split_four) (simp_all add: single_argument_lower assms)
  show ?thesis
    unfolding parse_command_def n Let_def r using s
    by (simp add: startswith_def andthen_def index_def except_IndexError_def del: split.simps)
qed

lemma parse_patch_usage:
  assumes "single_argument a" "single_argument b" "single_argument c"
  shows "parse_command (''/obsidian_patch '' @ a @ '' '' @ b @ '' '' @ c) = Inr UsagePatch"
proof -
  have f: "final_argument (a @ '' '' @ b @ '' '' @ c)"
    by (intro single_then_final single_final assms)
  have n: "lower (strip (''/obsidian_patch '' @ a @ '' '' @ b @ '' '' @ c))
      = ''/obsidian_patch '' @ lower (a @ '' '' @ b @ '' '' @ c)"
    by (rule normalize_prefixed [OF _ _ _ f]) (simp_all add: isspace_def lower_def)
  have r: "remainder (''/obsidian_patch '' @ lower (a @ '' '' @ b @ '' '' @ c)) ''/obsidian_patch ''
      = Inr (lower a @ '' '' @ lower b @ '' '' @ lower c)"
    using final_argument_lower [OF f]
      remainder_keyword [of "''/obsidian_patch ''" "lower (a @ '' '' @ b @ '' '' @ c)"]
    by (simp add: strip_final lower_def)
  have s: "split '' '' 3 (lower a @ '' '' @ lower b @ '' '' @ lower c) = [lower a, lower b, lower c]"
    by (rule split_three) (simp_all add: single_argument_lower assms)
  show ?thesis
    unfolding parse_command_def n Let_def r using s
    by (simp add: startswith_def andthen_def index_def except_IndexError_def del: split.simps)
qed

lemma parse_bare_keyword:
  assumes "\<forall>c\<in>set ws. isspace c"
  shows "parse_command (''/obsidian_list_dir'' @ ws) = Inr Unrecognized"
    and "parse_command (''/obsidian_get_content'' @ ws) = Inr Unrecognized"
    and "parse_command (''/obsidian_search'' @ ws) = Inr Unrecognized"
    and "parse_command (''/obsidian_delete'' @ ws) = Inr Unrecognized"
    and "parse_command (''/docker_create'' @ ws) = Inr Unrecognized"
proof -
  have n: "lower (strip (kw @ ws)) = kw"
    if "kw \<noteq> []" "\<not> isspace (hd kw)" "\<not> isspace (last kw)" "lower kw = kw" for kw
    using normalize_keyword [OF that, of ws] rstrip_spaces [OF assms] by (simp add: lower_def)
  have 1: "lower (strip (''/obsidian_list_dir'' @ ws)) = ''/obsidian_list_dir''"
    by (rule n) (simp_all add: isspace_def lower_def)
  have 2: "lower (strip (''/obsidian_get_content'' @ ws)) = ''/obsidian_get_content''"
    by (rule n) (simp_all add: isspace_def lower_def)
  have 3: "lower (strip (''/obsidian_search'' @ ws)) = ''/obsidian_search''"
    by (rule n) (simp_all add: isspace_def lower_def)
  have 4: "lower (strip (''/obsidian_delete'' @ ws)) = ''/obsidian_delete''"
    by (rule n) (simp_all add: isspace_def lower_def)
  have 5: "lower (strip (''/docker_create'' @ ws)) = ''/docker_create''"
    by (rule n) (simp_all add: isspace_def lower_def)
  show "parse_command (''/obsidian_list_dir'' @ ws) = Inr Unrecognized"
    unfolding parse_command_def 1 by (simp add: startswith_def)
  show "parse_command (''/obsidian_get_content'' @ ws) = Inr Unrecognized"
    unfolding parse_command_def 2 by (simp add: startswith_def)
  show "parse_command (''/obsidian_search'' @ ws) = Inr Unrecognized"
    unfolding parse_command_def 3 by (simp add: startswith_def)
  show "parse_command (''/obsidian_delete'' @ ws) = Inr Unrecognized"
    unfolding parse_command_def 4 by (simp add: startswith_def)
  show "parse_command (''/docker_create'' @ ws) = Inr Unrecognized"
    unfolding parse_command_def 5 by (simp add: startswith_def)
qed













text \<open>
  C3 (amended): the parser never raises, whatever the input. An input that gives a
  one-argument command its argument, \<^verbatim>\<open>/obsidian_append\<close> its two or \<^verbatim>\<open>/obsidian_patch\<close> its
  four, dispatches with exactly these arguments (lowercased), the last one keeping its
  inner spaces. \<^verbatim>\<open>/obsidian_append\<close> with one argument and \<^verbatim>\<open>/obsidian_patch\<close> with three give
  the command's usage reply. A one-argument command typed without its argument, with or
  without whitespace after the keyword, has no usage reply: the line is stripped, the
  prefix with its space does not match, and the reply is the unrecognized-command one.
\<close>

theorem parser_arguments_and_usage:
  assumes "single_argument a" and "single_argument b" and "single_argument c"
    and "final_argument d" and "\<forall>ch\<in>set ws. isspace ch"
  shows "(\<exists>r. parse_command prompt = Inr r) \<and>
     parse_command (''/obsidian_list_dir '' @ d) = Inr (ListDir (lower d)) \<and>
     parse_command (''/obsidian_get_content '' @ d) = Inr (GetContent (lower d)) \<and>
     parse_command (''/obsidian_search '' @ d) = Inr (Search (lower d)) \<and>
     parse_command (''/obsidian_delete '' @ d) = Inr (Delete (lower d)) \<and>
     parse_command (''/docker_create '' @ d) = Inr (DockerCreate (lower d)) \<and>
     parse_command (''/obsidian_append '' @ a @ '' '' @ d) = Inr (Append (lower a) (lower d)) \<and>
     parse_command (''/obsidian_patch '' @ a @ '' '' @ b @ '' '' @ c @ '' '' @ d) =
       Inr (Patch (lower a) (lower b) (lower c) (lower d)) \<and>
     parse_command (''/obsidian_append '' @ a) = Inr UsageAppend \<and>
     parse_command (''/obsidian_patch '' @ a @ '' '' @ b @ '' '' @ c) = Inr UsagePatch \<and>
     parse_command (''/obsidian_list_dir'' @ ws) = Inr Unrecognized \<and>
     parse_command (''/obsidian_get_content'' @ ws) = Inr Unrecognized \<and>
     parse_command (''/obsidian_search'' @ ws) = Inr Unrecognized \<and>
     parse_command (''/obsidian_delete'' @ ws) = Inr Unrecognized \<and>
     parse_command (''/docker_create'' @ ws) = Inr Unrecognized"
  using parse_total [of prompt]
    parse_list_dir [OF assms(4)] parse_get_content [OF assms(4)] parse_search [OF assms(4)]
    parse_delete [OF assms(4)] parse_docker_create [OF assms(4)]
    parse_append [OF assms(1,4)] parse_append_usage [OF assms(1)]
    parse_patch [OF assms(1,2,3,4)] parse_patch_usage [OF assms(1,2,3)]
    parse_bare_keyword [OF assms(5)]
  by blast

theorem parser_arguments_and_usage_witness:
  "(\<exists>r. parse_command ''/obsidian_patch x'' = Inr r) \<and>
     parse_command (''/obsidian_list_dir '' @ ''Hello World'') = Inr (ListDir ''hello world'') \<and>
     parse_command (''/obsidian_get_content '' @ ''Hello World'') = Inr (GetContent ''hello world'') \<and>
     parse_command (''/obsidian_search '' @ ''Hello World'') = Inr (Search ''hello world'') \<and>
     parse_command (''/obsidian_delete '' @ ''Hello World'') = Inr (Delete ''hello world'') \<and>
     parse_command (''/docker_create '' @ ''Hello World'') = Inr (DockerCreate ''hello world'') \<and>
     parse_command (''/obsidian_append '' @ ''Notes.md'' @ '' '' @ ''Hello World'') =
       Inr (Append ''notes.md'' ''hello world'') \<and>
     parse_command (''/obsidian_patch '' @ ''Notes.md'' @ '' '' @ ''heading'' @ '' '' @ ''Intro'' @ '' '' @
         ''Hello World'') =
       Inr (Patch ''notes.md'' ''heading'' ''intro'' ''hello world'') \<and>
     parse_command (''/obsidian_append '' @ ''Notes.md'') = Inr UsageAppend \<and>
     parse_command (''/obsidian_patch '' @ ''Notes.md'' @ '' '' @ ''heading'' @ '' '' @ ''Intro'') =
       Inr UsagePatch \<and>
     parse_command (''/obsidian_list_dir'' @ [CHR '' '', CHR 0xA0]) = Inr Unrecognized \<and>
     parse_command (''/obsidian_get_content'' @ [CHR '' '', CHR 0xA0]) = Inr Unrecognized \<and>
     parse_command (''/obsidian_search'' @ [CHR '' '', CHR 0xA0]) = Inr Unrecognized \<and>
     parse_command (''/obsidian_delete'' @ [CHR '' '', CHR 0xA0]) = Inr Unrecognized \<and>
     parse_command (''/docker_create'' @ [CHR '' '', CHR 0xA0]) = Inr Unrecognized"
proof -
  have a: "single_argument ''Notes.md''" by (simp add: single_argument_def isspace_def)
  have b: "single_argument ''heading''" by (simp add: single_argument_def isspace_def)
  have c: "single_argument ''Intro''" by (simp add: single_argument_def isspace_def)
  have d: "final_argument ''Hello World''" by (simp add: final_argument_def isspace_def)
  have w: "\<forall>ch\<in>set [CHR '' '', CHR 0xA0]. isspace ch" by (simp add: isspace_def)
  have l: "lower ''Notes.md'' = ''notes.md''" "lower ''heading'' = ''heading''"
    "lower ''Intro'' = ''intro''" "lower ''Hello World'' = ''hello world''"
    by code_simp+
  from parser_arguments_and_usage [OF a b c d w, of "''/obsidian_patch x''", unfolded l]
  show ?thesis .
qed

text \<open>
  C3 as stated fails: \<^verbatim>\<open>/obsidian_get_content\<close> typed with one argument fewer than its
  documented one gives the unrecognized-command reply, not a usage reply.
\<close>

theorem missing_argument_counterexample:
  "parse_command ''/obsidian_get_content'' = Inr Unrecognized"
  by code_simp


section \<open>Properties of the tool-calling round-trip\<close>

lemma world_simps [simp]:
  "messages (emit e w) = messages w"
  "events (emit e w) = events w @ [e]"
  "rerun (emit e w) = rerun w"
  "messages (append_message m w) = messages w @ [m]"
  "events (append_message m w) = events w"
  "rerun (append_message m w) = rerun w"
  by (simp_all add: emit_def append_message_def)

lemma send_simps [simp]:
  "fst (send env rq w) = http env rq"
  "snd (send env rq w) = emit (Sent rq) w"
  by (simp_all add: send_def)

lemma chat_posts_simps [simp]:
  "chat_posts [] = 0"
  "chat_posts (xs @ ys) = chat_posts xs + chat_posts ys"
  "chat_posts (e # xs) = (if is_chat_post e then 1 else 0) + chat_posts xs"
  by (simp_all add: chat_posts_def)

lemma py_in_dict: "py_in k (JObj kvs) = Inr (map_of kvs k \<noteq> None)"
  by (simp add: map_of_eq_None_iff)

lemma select_no_tool_call:
  assumes "map_of d ''message'' = Some (JObj m)"
    and "(map_of m ''tool_calls'' = None \<and> map_of m ''tool'' = None) \<or>
         map_of m ''tool_calls'' = Some (JList [])"
  shows "select_tool_call (JObj d) = Inr None"
  using assms by (auto simp add: select_tool_call_def andthen_def py_in_dict simp del: py_in.simps)

lemma direct_reply_content:
  assumes "map_of d ''message'' = Some (JObj m)" and "map_of m ''content'' = Some final_msg"
  shows "direct_reply (JObj d) w =
    (None, emit (Markdown Assistant final_msg) (append_message (assistant_message final_msg) w))"
  using assms by (simp add: direct_reply_def message_content_def andthen_def assistant_message_def)

lemma turn_unfold:
  assumes "prompt \<noteq> []"
  shows "turn env prompt w =
    (let w1 = emit (Markdown User (JStr prompt)) (append_message (user_message prompt) w);
         w2 = emit (Sent (ChatPost (messages w @ [user_message prompt]) True)) w1
     in case response_json (http env (ChatPost (messages w @ [user_message prompt]) True)) of
          Inl e \<Rightarrow> (Some e, w2)
        | Inr data \<Rightarrow> handle_response env data (emit (RawResponse data) w2))"
  using assms by (simp add: turn_def Let_def user_message_def split_def split: sum.splits)

text \<open>
  C7 (amended): when the message of the first response has neither a \<^verbatim>\<open>tool_calls\<close> entry nor
  a \<^verbatim>\<open>tool\<close> entry (or has an empty \<^verbatim>\<open>tool_calls\<close> list) and has a content, the turn ends
  normally, stores the user's message followed by exactly one assistant message holding
  that content, and sends one inference request only.
\<close>

theorem no_tool_call_turn:
  assumes "prompt \<noteq> []"
    and "response_json (http env (ChatPost (messages w @ [user_message prompt]) True)) = Inr (JObj d)"
    and "map_of d ''message'' = Some (JObj m)"
    and "(map_of m ''tool_calls'' = None \<and> map_of m ''tool'' = None) \<or>
         map_of m ''tool_calls'' = Some (JList [])"
    and "map_of m ''content'' = Some final_msg"
  shows "fst (turn env prompt w) = None \<and>
    messages (snd (turn env prompt w)) =
      messages w @ [user_message prompt, assistant_message final_msg] \<and>
    chat_posts (events (snd (turn env prompt w))) = chat_posts (events w) + 1"
  using assms(2)
  by (simp add: turn_unfold [OF assms(1)] handle_response_def
      select_no_tool_call [OF assms(3,4)] direct_reply_content [OF assms(3,5)])

theorem no_tool_call_turn_witness:
  "''hi'' \<noteq> [] \<and>
   response_json (http (scripted (Reply 200 (Some (text_response ''Hello.''))) (Raises ''down'') (Raises ''down''))
      (ChatPost (messages new_session @ [user_message ''hi'']) True)) =
     Inr (JObj [(''message'', JObj [(''role'', JStr ''assistant''), (''content'', JStr ''Hello.'')])]) \<and>
   fst (turn (scripted (Reply 200 (Some (text_response ''Hello.''))) (Raises ''down'') (Raises ''down''))
      ''hi'' new_session) = None \<and>
   messages (snd (turn (scripted (Reply 200 (Some (text_response ''Hello.''))) (Raises ''down'') (Raises ''down''))
      ''hi'' new_session)) =
     messages new_session @ [user_message ''hi'', assistant_message (JStr ''Hello.'')] \<and>
   chat_posts (events (snd (turn (scripted (Reply 200 (Some (text_response ''Hello.''))) (Raises ''down'') (Raises ''down''))
      ''hi'' new_session))) = chat_posts (events new_session) + 1"
proof -
  let ?env = "scripted (Reply 200 (Some (text_response ''Hello.''))) (Raises ''down'') (Raises ''down'')"
  let ?m = "[(''role'', JStr ''assistant''), (''content'', JStr ''Hello.'')]"
  have 1: "''hi'' \<noteq> []" by simp
  have 2: "response_json (http ?env (ChatPost (messages new_session @ [user_message ''hi'']) True)) =
     Inr (JObj [(''message'', JObj ?m)])"
    by (simp add: scripted_def text_response_def response_json_def raise_for_status_def andthen_def)
  have 3: "map_of [(''message'', JObj ?m)] ''message'' = Some (JObj ?m)" by simp
  have 4: "(map_of ?m ''tool_calls'' = None \<and> map_of ?m ''tool'' = None) \<or>
         map_of ?m ''tool_calls'' = Some (JList [])" by simp
  have 5: "map_of ?m ''content'' = Some (JStr ''Hello.'')" by simp
  from 1 2 no_tool_call_turn [OF 1 2 3 4 5] show ?thesis by blast
qed

text \<open>
  C7 as stated fails: a first response whose message has no \<^verbatim>\<open>tool_calls\<close> list but a
  \<^verbatim>\<open>tool\<close> entry is handled as a tool call, and the turn sends a second inference request.
\<close>

theorem tool_entry_counterexample:
  "chat_posts (events (snd (turn
      (scripted (Reply 200 (Some (legacy_tool_response (JStr ''list_files'') (JObj []))))
                (Reply 200 (Some (text_response ''Your vault is empty.'')))
                (Reply 200 (Some (JList []))))
      ''list my files'' new_session))) = 2 \<and>
   map role (messages (snd (turn
      (scripted (Reply 200 (Some (legacy_tool_response (JStr ''list_files'') (JObj []))))
                (Reply 200 (Some (text_response ''Your vault is empty.'')))
                (Reply 200 (Some (JList []))))
      ''list my files'' new_session))) = [System, User, Tool, Assistant]"
  by code_simp

lemma select_first_tool_call:
  assumes "map_of d ''message'' = Some (JObj m)"
    and "map_of m ''tool_calls'' = Some (JList (tc # rest))"
  shows "select_tool_call (JObj d) = Inr (Some tc)"
  using assms by (simp add: select_tool_call_def andthen_def py_in_dict del: py_in.simps)

lemma truthy_dict: "map_of t k = Some v \<Longrightarrow> truthy (JObj t)"
  by (cases t) simp_all

lemma handle_response_tool_call:
  assumes "map_of d ''message'' = Some (JObj m)"
    and "map_of m ''tool_calls'' = Some (JList (JObj t # rest))"
    and "map_of t ''function'' = Some (JObj f)"
  shows "handle_response env (JObj d) w = handle_tool_call env (JObj t) w"
  using truthy_dict [OF assms(3)]
  by (simp add: handle_response_def select_first_tool_call [OF assms(1,2)])

lemma handle_tool_call_decode_error:
  assumes "map_of t ''function'' = Some (JObj f)"
    and "map_of f ''name'' = Some fn_name"
    and "decode_args env (case map_of f ''arguments'' of Some a \<Rightarrow> a | None \<Rightarrow> JStr ''{}'') = Inl e"
  shows "handle_tool_call env (JObj t) w = (Some e, w)"
  using assms by (simp add: handle_tool_call_def andthen_def)

lemma handle_tool_call_known:
  assumes "map_of t ''function'' = Some (JObj f)"
    and "map_of f ''name'' = Some (JStr n)" and "n \<in> set FUNCTION_MAP"
    and "decode_args env (case map_of f ''arguments'' of Some a \<Rightarrow> a | None \<Rightarrow> JStr ''{}'') = Inr fn_args"
  shows "handle_tool_call env (JObj t) w =
    (case tool_round env n fn_args (emit (CallingTool (JStr n) fn_args) w) of
       (Inl e, w2) \<Rightarrow> (None, emit (ToolFailed n e) w2)
     | (Inr u, w2) \<Rightarrow> (None, w2))"
  using assms by (simp add: handle_tool_call_def andthen_def Let_def)

lemma call_function_frame:
  "messages (snd (call_function env n a w)) = messages w \<and>
   rerun (snd (call_function env n a w)) = rerun w \<and>
   chat_posts (events (snd (call_function env n a w))) = chat_posts (events w)"
  by (auto simp add: call_function_def list_files_def summarize_file_def create_summary_note_def
      split_def Let_def split: json.splits list.splits)

lemma call_function_result:
  "fst (call_function env n a w) = fst (call_function env n a w')"
  by (auto simp add: call_function_def list_files_def summarize_file_def create_summary_note_def
      split_def Let_def split: json.splits list.splits)

lemma tool_round_adapter_error:
  assumes "fst (call_function env n a w) = Inl e"
  shows "fst (tool_round env n a w) = Inl e \<and>
    messages (snd (tool_round env n a w)) = messages w \<and>
    chat_posts (events (snd (tool_round env n a w))) = chat_posts (events w)"
  using assms call_function_frame [of env n a w]
  by (cases "call_function env n a w") (simp add: tool_round_def)

lemma tool_round_followup:
  assumes "fst (call_function env n a w) = Inr result"
  shows "fst (tool_round env n a w) =
      map_sum id (\<lambda>x. ())
        (andthen (response_json (http env
           (ChatPost (messages w @ [tool_message n (dumps env result)]) False))) message_content) \<and>
    messages (snd (tool_round env n a w)) =
      messages w @ tool_message n (dumps env result) #
        (case andthen (response_json (http env
            (ChatPost (messages w @ [tool_message n (dumps env result)]) False))) message_content of
           Inl e \<Rightarrow> [] | Inr final_msg \<Rightarrow> [assistant_message final_msg]) \<and>
    chat_posts (events (snd (tool_round env n a w))) = chat_posts (events w) + 1"
  using assms call_function_frame [of env n a w]
  by (cases "call_function env n a w")
     (simp add: tool_round_def Let_def split_def tool_message_def assistant_message_def
        split: sum.splits)

text \<open>
  C4 (amended): when the first tool call of the response names a registered adapter, its
  arguments decode and fit the adapter, the adapter returns, and the follow-up request
  returns a message with a content, the turn stores the user's message, exactly one tool
  message and exactly one assistant message after it, and sends exactly two inference
  requests.
\<close>

theorem tool_call_turn:
  assumes "prompt \<noteq> []"
    and "response_json (http env (ChatPost (messages w @ [user_message prompt]) True)) = Inr (JObj d)"
    and "map_of d ''message'' = Some (JObj m)"
    and "map_of m ''tool_calls'' = Some (JList (JObj t # rest))"
    and "map_of t ''function'' = Some (JObj f)"
    and "map_of f ''name'' = Some (JStr n)"
    and "n \<in> set FUNCTION_MAP"
    and "decode_args env (case map_of f ''arguments'' of Some a \<Rightarrow> a | None \<Rightarrow> JStr ''{}'') = Inr fn_args"
    and "fst (call_function env n fn_args w) = Inr result"
    and "response_json (http env (ChatPost
           (messages w @ [user_message prompt, tool_message n (dumps env result)]) False)) = Inr followup"
    and "message_content followup = Inr final_msg"
  shows "fst (turn env prompt w) = None \<and>
    messages (snd (turn env prompt w)) =
      messages w @ [user_message prompt, tool_message n (dumps env result),
                    assistant_message final_msg] \<and>
    chat_posts (events (snd (turn env prompt w))) = chat_posts (events w) + 2"
proof -
  let ?w3 = "emit (CallingTool (JStr n) fn_args)
     (emit (RawResponse (JObj d))
       (emit (Sent (ChatPost (messages w @ [user_message prompt]) True))
         (emit (Markdown User (JStr prompt)) (append_message (user_message prompt) w))))"
  have t: "turn env prompt w =
    (case tool_round env n fn_args ?w3 of
       (Inl e, w2) \<Rightarrow> (None, emit (ToolFailed n e) w2)
     | (Inr u, w2) \<Rightarrow> (None, w2))"
    using assms(2)
    by (simp add: turn_unfold [OF assms(1)] handle_response_tool_call [OF assms(3,4,5)]
        handle_tool_call_known [OF assms(5,6,7,8)])
  have c: "fst (call_function env n fn_args ?w3) = Inr result"
    using assms(9) call_function_result [of env n fn_args ?w3 w] by simp
  have r: "fst (tool_round env n fn_args ?w3) = Inr () \<and>
    messages (snd (tool_round env n fn_args ?w3)) =
      messages w @ [user_message prompt, tool_message n (dumps env result),
                    assistant_message final_msg] \<and>
    chat_posts (events (snd (tool_round env n fn_args ?w3))) = chat_posts (events w) + 2"
    using tool_round_followup [OF c] assms(10,11) by (simp add: andthen_def)
  show ?thesis
    unfolding t using r by (cases "tool_round env n fn_args ?w3") auto
qed

theorem tool_call_turn_witness:
  "fst (turn listing_env ''list my files'' new_session) = None \<and>
   messages (snd (turn listing_env ''list my files'' new_session)) =
     messages new_session @ [user_message ''list my files'', tool_message ''list_files'' ''[]'',
       assistant_message (JStr ''Your vault is empty.'')] \<and>
   chat_posts (events (snd (turn listing_env ''list my files'' new_session))) =
     chat_posts (events new_session) + 2"
proof -
  let ?f = "[(''name'', JStr ''list_files''), (''arguments'', JObj [])]"
  let ?t = "[(''function'', JObj ?f)]"
  let ?m = "[(''role'', JStr ''assistant''), (''content'', JStr ''done''),
             (''tool_calls'', JList [JObj ?t])]"
  let ?d = "[(''message'', JObj ?m)]"
  have 1: "''list my files'' \<noteq> []" by simp
  have 2: "response_json (http listing_env
      (ChatPost (messages new_session @ [user_message ''list my files'']) True)) = Inr (JObj ?d)"
    by (simp add: listing_env_def scripted_def tool_call_response_def response_json_def
        raise_for_status_def andthen_def)
  have 3: "map_of ?d ''message'' = Some (JObj ?m)" by simp
  have 4: "map_of ?m ''tool_calls'' = Some (JList (JObj ?t # []))" by simp
  have 5: "map_of ?t ''function'' = Some (JObj ?f)" by simp
  have 6: "map_of ?f ''name'' = Some (JStr ''list_files'')" by simp
  have 7: "''list_files'' \<in> set FUNCTION_MAP" by (simp add: FUNCTION_MAP_def)
  have 8: "decode_args listing_env
      (case map_of ?f ''arguments'' of Some a \<Rightarrow> a | None \<Rightarrow> JStr ''{}'') = Inr (JObj [])"
    by (simp add: decode_args_def)
  have 9: "fst (call_function listing_env ''list_files'' (JObj []) new_session) = Inr (JList [])"
    by (simp add: call_function_def list_files_def listing_env_def scripted_def split_def
        response_json_def raise_for_status_def andthen_def)
  have d: "dumps listing_env (JList []) = ''[]''"
    by (simp add: listing_env_def scripted_def sample_dumps_def)
  have 10: "response_json (http listing_env (ChatPost
      (messages new_session @ [user_message ''list my files'',
         tool_message ''list_files'' (dumps listing_env (JList []))]) False)) =
      Inr (text_response ''Your vault is empty.'')"
    by (simp add: listing_env_def scripted_def response_json_def raise_for_status_def andthen_def)
  have 11: "message_content (text_response ''Your vault is empty.'') = Inr (JStr ''Your vault is empty.'')"
    by (simp add: message_content_def text_response_def andthen_def)
  from tool_call_turn [OF 1 2 3 4 5 6 7 8 9 10 11] show ?thesis
    unfolding d .
qed

text \<open>
  C4 as stated fails: a first response whose tool-call list names a tool that is not
  registered stores no tool message and no assistant message, and one inference request
  is sent.
\<close>

theorem unknown_tool_counterexample:
  "map role (messages (snd (turn unknown_tool_env ''clean up'' new_session))) = [System, User] \<and>
   chat_posts (events (snd (turn unknown_tool_env ''clean up'' new_session))) = 1"
  by code_simp

lemma tool_round_events:
  "\<exists>more. events (snd (tool_round env n a w)) = events (snd (call_function env n a w)) @ more"
  by (cases "call_function env n a w")
     (auto simp add: tool_round_def Let_def split_def split: sum.splits)

lemma call_summarize_file:
  "call_function env ''summarize_file'' (JObj [(''filename'', v)]) w =
    (response_json (http env (VaultPost ''/summarize'' (Some (JObj [(''filename'', v)])))),
     emit (Sent (VaultPost ''/summarize'' (Some (JObj [(''filename'', v)])))) w)"
  by (simp add: call_function_def summarize_file_def send_def)

lemma call_function_non_mapping:
  "\<forall>kw. v \<noteq> JObj kw \<Longrightarrow> call_function env n v w = (Inl TypeError, w)"
  by (cases v) (simp_all add: call_function_def)

text \<open>
  C6: a call of a registered tool whose arguments arrive as a string that decodes to the
  mapping \<open>d\<close> is handled exactly as the same call with \<open>d\<close> already structured: the
  announced arguments are \<open>d\<close>, the adapter is invoked with \<open>d\<close>, and the results, stored
  messages and events are the same. In particular a payload that decodes to the single
  entry \<^verbatim>\<open>filename\<close> makes \<^verbatim>\<open>summarize_file\<close> post that filename to the vault.
\<close>

theorem serialized_arguments_equivalent:
  assumes "map_of t1 ''function'' = Some (JObj f1)"
    and "map_of t2 ''function'' = Some (JObj f2)"
    and "map_of f1 ''name'' = Some (JStr n)"
    and "map_of f2 ''name'' = Some (JStr n)"
    and "n \<in> set FUNCTION_MAP"
    and "map_of f1 ''arguments'' = Some (JStr s)"
    and "map_of f2 ''arguments'' = Some (JObj d)"
    and "loads env s = Inr (JObj d)"
  shows "handle_tool_call env (JObj t1) w = handle_tool_call env (JObj t2) w \<and>
    handle_tool_call env (JObj t1) w =
      (case tool_round env n (JObj d) (emit (CallingTool (JStr n) (JObj d)) w) of
         (Inl e, w2) \<Rightarrow> (None, emit (ToolFailed n e) w2)
       | (Inr u, w2) \<Rightarrow> (None, w2)) \<and>
    (n = ''summarize_file'' \<longrightarrow> d = [(''filename'', v)] \<longrightarrow>
       Sent (VaultPost ''/summarize'' (Some (JObj [(''filename'', v)])))
         \<in> set (events (snd (handle_tool_call env (JObj t1) w))))"
proof -
  let ?w1 = "emit (CallingTool (JStr n) (JObj d)) w"
  let ?r = "case tool_round env n (JObj d) ?w1 of
         (Inl e, w2) \<Rightarrow> (None, emit (ToolFailed n e) w2)
       | (Inr u, w2) \<Rightarrow> (None, w2)"
  have 1: "handle_tool_call env (JObj t1) w = ?r"
    by (rule handle_tool_call_known [OF assms(1,3,5)]) (simp add: assms(6,8) decode_args_def)
  have 2: "handle_tool_call env (JObj t2) w = ?r"
    by (rule handle_tool_call_known [OF assms(2,4,5)]) (simp add: assms(7) decode_args_def)
  have 3: "Sent (VaultPost ''/summarize'' (Some (JObj [(''filename'', v)])))
         \<in> set (events (snd (handle_tool_call env (JObj t1) w)))"
    if "n = ''summarize_file''" and "d = [(''filename'', v)]"
  proof -
    from tool_round_events [of env n "JObj d" ?w1] obtain more
      where "events (snd (tool_round env n (JObj d) ?w1)) =
        events (snd (call_function env n (JObj d) ?w1)) @ more" by blast
    then have "Sent (VaultPost ''/summarize'' (Some (JObj [(''filename'', v)])))
        \<in> set (events (snd (tool_round env n (JObj d) ?w1)))"
      using that by (simp add: call_summarize_file)
    then show ?thesis
      unfolding 1 by (cases "tool_round env n (JObj d) ?w1") (auto split: sum.splits)
  qed
  from 1 2 3 show ?thesis by simp
qed

theorem serialized_arguments_equivalent_witness:
  "handle_tool_call summarize_env
     (JObj [(''function'', JObj [(''name'', JStr ''summarize_file''), (''arguments'', JStr filename_payload)])])
     new_session =
   handle_tool_call summarize_env
     (JObj [(''function'', JObj [(''name'', JStr ''summarize_file''),
        (''arguments'', JObj [(''filename'', JStr ''a.md'')])])])
     new_session \<and>
   Sent (VaultPost ''/summarize'' (Some (JObj [(''filename'', JStr ''a.md'')])))
     \<in> set (events (snd (handle_tool_call summarize_env
       (JObj [(''function'', JObj [(''name'', JStr ''summarize_file''), (''arguments'', JStr filename_payload)])])
       new_session)))"
proof -
  let ?f1 = "[(''name'', JStr ''summarize_file''), (''arguments'', JStr filename_payload)]"
  let ?f2 = "[(''name'', JStr ''summarize_file''), (''arguments'', JObj [(''filename'', JStr ''a.md'')])]"
  have 1: "map_of [(''function'', JObj ?f1)] ''function'' = Some (JObj ?f1)" by simp
  have 2: "map_of [(''function'', JObj ?f2)] ''function'' = Some (JObj ?f2)" by simp
  have 3: "map_of ?f1 ''name'' = Some (JStr ''summarize_file'')" by simp
  have 4: "map_of ?f2 ''name'' = Some (JStr ''summarize_file'')" by simp
  have 5: "''summarize_file'' \<in> set FUNCTION_MAP" by (simp add: FUNCTION_MAP_def)
  have 6: "map_of ?f1 ''arguments'' = Some (JStr filename_payload)" by simp
  have 7: "map_of ?f2 ''arguments'' = Some (JObj [(''filename'', JStr ''a.md'')])" by simp
  have 8: "loads summarize_env filename_payload = Inr (JObj [(''filename'', JStr ''a.md'')])"
    by (simp add: summarize_env_def scripted_def sample_loads_def filename_payload_def)
  from serialized_arguments_equivalent [OF 1 2 3 4 5 6 7 8, of new_session "JStr ''a.md''"]
  show ?thesis by blast
qed

text \<open>
  C5 (amended): when the argument payload of the tool call is a string that the decoder
  rejects, its exception ends the run of the script where it is raised: it is not caught by
  the script, which shows no error text of its own. When the string decodes to a value that
  is not a mapping and the tool is registered, the failure arises at the adapter call inside
  the \<^verbatim>\<open>try\<close>: it is caught, the tool-failure error is shown and the turn ends normally. In
  both cases nothing is retried, no vault request and no second inference request is sent,
  and the store holds the user's message only.
\<close>

theorem decode_failure_turn:
  assumes "prompt \<noteq> []"
    and "response_json (http env1 (ChatPost (messages w @ [user_message prompt]) True)) = Inr (JObj d1)"
    and "map_of d1 ''message'' = Some (JObj m1)"
    and "map_of m1 ''tool_calls'' = Some (JList (JObj t1 # rest1))"
    and "map_of t1 ''function'' = Some (JObj f1)"
    and "map_of f1 ''name'' = Some fn_name"
    and "map_of f1 ''arguments'' = Some (JStr s1)"
    and "loads env1 s1 = Inl e"
    and "response_json (http env2 (ChatPost (messages w @ [user_message prompt]) True)) = Inr (JObj d2)"
    and "map_of d2 ''message'' = Some (JObj m2)"
    and "map_of m2 ''tool_calls'' = Some (JList (JObj t2 # rest2))"
    and "map_of t2 ''function'' = Some (JObj f2)"
    and "map_of f2 ''name'' = Some (JStr n)"
    and "n \<in> set FUNCTION_MAP"
    and "map_of f2 ''arguments'' = Some (JStr s2)"
    and "loads env2 s2 = Inr v"
    and "\<forall>kw. v \<noteq> JObj kw"
  shows "turn env1 prompt w =
    (Some e,
     emit (RawResponse (JObj d1))
       (emit (Sent (ChatPost (messages w @ [user_message prompt]) True))
         (emit (Markdown User (JStr prompt)) (append_message (user_message prompt) w)))) \<and>
    turn env2 prompt w =
    (None,
     emit (ToolFailed n TypeError)
       (emit (CallingTool (JStr n) v)
         (emit (RawResponse (JObj d2))
           (emit (Sent (ChatPost (messages w @ [user_message prompt]) True))
             (emit (Markdown User (JStr prompt)) (append_message (user_message prompt) w))))))"
proof -
  have "decode_args env1 (case map_of f1 ''arguments'' of Some a \<Rightarrow> a | None \<Rightarrow> JStr ''{}'') = Inl e"
    using assms(7,8) by (simp add: decode_args_def)
  then have a: "turn env1 prompt w =
    (Some e,
     emit (RawResponse (JObj d1))
       (emit (Sent (ChatPost (messages w @ [user_message prompt]) True))
         (emit (Markdown User (JStr prompt)) (append_message (user_message prompt) w))))"
    using assms(2)
    by (simp add: turn_unfold [OF assms(1)] handle_response_tool_call [OF assms(3,4,5)]
        handle_tool_call_decode_error [OF assms(5,6)])
  have "decode_args env2 (case map_of f2 ''arguments'' of Some a \<Rightarrow> a | None \<Rightarrow> JStr ''{}'') = Inr v"
    using assms(15,16) by (simp add: decode_args_def)
  then have b: "turn env2 prompt w =
    (None,
     emit (ToolFailed n TypeError)
       (emit (CallingTool (JStr n) v)
         (emit (RawResponse (JObj d2))
           (emit (Sent (ChatPost (messages w @ [user_message prompt]) True))
             (emit (Markdown User (JStr prompt)) (append_message (user_message prompt) w))))))"
    using assms(9)
    by (simp add: turn_unfold [OF assms(1)] handle_response_tool_call [OF assms(10,11,12)]
        handle_tool_call_known [OF assms(12,13,14)] tool_round_def
        call_function_non_mapping [OF assms(17)])
  from a b show ?thesis by simp
qed

theorem decode_failure_turn_witness:
  "turn bad_arguments_env ''summarize it'' new_session =
    (Some JSONDecodeError,
     emit (RawResponse (tool_call_response (JStr ''summarize_file'') (JStr ''not json'')))
       (emit (Sent (ChatPost (messages new_session @ [user_message ''summarize it'']) True))
         (emit (Markdown User (JStr ''summarize it''))
            (append_message (user_message ''summarize it'') new_session)))) \<and>
   turn list_arguments_env ''summarize it'' new_session =
    (None,
     emit (ToolFailed ''summarize_file'' TypeError)
       (emit (CallingTool (JStr ''summarize_file'') (JList [JNum 1]))
         (emit (RawResponse (tool_call_response (JStr ''summarize_file'') (JStr ''[1]'')))
           (emit (Sent (ChatPost (messages new_session @ [user_message ''summarize it'']) True))
             (emit (Markdown User (JStr ''summarize it''))
                (append_message (user_message ''summarize it'') new_session))))))"
proof -
  let ?f1 = "[(''name'', JStr ''summarize_file''), (''arguments'', JStr ''not json'')]"
  let ?t1 = "[(''function'', JObj ?f1)]"
  let ?m1 = "[(''role'', JStr ''assistant''), (''content'', JStr ''done''),
             (''tool_calls'', JList [JObj ?t1])]"
  let ?d1 = "[(''message'', JObj ?m1)]"
  let ?f2 = "[(''name'', JStr ''summarize_file''), (''arguments'', JStr ''[1]'')]"
  let ?t2 = "[(''function'', JObj ?f2)]"
  let ?m2 = "[(''role'', JStr ''assistant''), (''content'', JStr ''done''),
             (''tool_calls'', JList [JObj ?t2])]"
  let ?d2 = "[(''message'', JObj ?m2)]"
  have 1: "''summarize it'' \<noteq> []" by simp
  have 2: "response_json (http bad_arguments_env
      (ChatPost (messages new_session @ [user_message ''summarize it'']) True)) = Inr (JObj ?d1)"
    by (simp add: bad_arguments_env_def scripted_def tool_call_response_def response_json_def
        raise_for_status_def andthen_def)
  have 3: "map_of ?d1 ''message'' = Some (JObj ?m1)" by simp
  have 4: "map_of ?m1 ''tool_calls'' = Some (JList (JObj ?t1 # []))" by simp
  have 5: "map_of ?t1 ''function'' = Some (JObj ?f1)" by simp
  have 6: "map_of ?f1 ''name'' = Some (JStr ''summarize_file'')" by simp
  have 7: "map_of ?f1 ''arguments'' = Some (JStr ''not json'')" by simp
  have 8: "loads bad_arguments_env ''not json'' = Inl JSONDecodeError"
    by (simp add: bad_arguments_env_def scripted_def sample_loads_def filename_payload_def)
  have 9: "response_json (http list_arguments_env
      (ChatPost (messages new_session @ [user_message ''summarize it'']) True)) = Inr (JObj ?d2)"
    by (simp add: list_arguments_env_def scripted_def tool_call_response_def response_json_def
        raise_for_status_def andthen_def)
  have 10: "map_of ?d2 ''message'' = Some (JObj ?m2)" by simp
  have 11: "map_of ?m2 ''tool_calls'' = Some (JList (JObj ?t2 # []))" by simp
  have 12: "map_of ?t2 ''function'' = Some (JObj ?f2)" by simp
  have 13: "map_of ?f2 ''name'' = Some (JStr ''summarize_file'')" by simp
  have 14: "''summarize_file'' \<in> set FUNCTION_MAP" by (simp add: FUNCTION_MAP_def)
  have 15: "map_of ?f2 ''arguments'' = Some (JStr ''[1]'')" by simp
  have 16: "loads list_arguments_env ''[1]'' = Inr (JList [JNum 1])"
    by (simp add: list_arguments_env_def scripted_def sample_loads_def filename_payload_def)
  have 17: "\<forall>kw. JList [JNum 1] \<noteq> JObj kw" by simp
  from decode_failure_turn [OF 1 2 3 4 5 6 7 8 9 10 11 12 13 14 15 16 17] show ?thesis
    by (simp add: tool_call_response_def)
qed

text \<open>
  C5 as stated fails: a payload that the decoder rejects is not caught. The run ends with
  the exception, and the script has shown no error text.
\<close>

theorem decode_failure_counterexample:
  "fst (turn bad_arguments_env ''summarize it'' new_session) = Some JSONDecodeError \<and>
   filter (\<lambda>ev. case ev of ToolFailed n e \<Rightarrow> True | ErrorBox s \<Rightarrow> True | UnknownTool n \<Rightarrow> True | _ \<Rightarrow> False)
     (events (snd (turn bad_arguments_env ''summarize it'' new_session))) = []"
  by code_simp

text \<open>
  C1 (amended): a transport failure on the first inference request ends the run with the
  exception (there is no handler around the first request) and the store is the one
  before the turn plus the user's message. A transport failure on the second request is
  caught: the turn ends normally after showing the tool-failure error, and the store is
  the one before the turn plus the user's message and the tool message, which stays.
\<close>

theorem transport_failure_turn:
  assumes "prompt \<noteq> []"
    and "response_json (http env1 (ChatPost (messages w @ [user_message prompt]) True)) = Inl e1"
    and "response_json (http env2 (ChatPost (messages w @ [user_message prompt]) True)) = Inr (JObj d)"
    and "map_of d ''message'' = Some (JObj m)"
    and "map_of m ''tool_calls'' = Some (JList (JObj t # rest))"
    and "map_of t ''function'' = Some (JObj f)"
    and "map_of f ''name'' = Some (JStr n)"
    and "n \<in> set FUNCTION_MAP"
    and "decode_args env2 (case map_of f ''arguments'' of Some a \<Rightarrow> a | None \<Rightarrow> JStr ''{}'') = Inr fn_args"
    and "fst (call_function env2 n fn_args w) = Inr result"
    and "response_json (http env2 (ChatPost
           (messages w @ [user_message prompt, tool_message n (dumps env2 result)]) False)) = Inl e2"
  shows "fst (turn env1 prompt w) = Some e1 \<and>
    messages (snd (turn env1 prompt w)) = messages w @ [user_message prompt] \<and>
    fst (turn env2 prompt w) = None \<and>
    last (events (snd (turn env2 prompt w))) = ToolFailed n e2 \<and>
    messages (snd (turn env2 prompt w)) =
      messages w @ [user_message prompt, tool_message n (dumps env2 result)]"
proof -
  have a: "fst (turn env1 prompt w) = Some e1 \<and>
    messages (snd (turn env1 prompt w)) = messages w @ [user_message prompt]"
    using assms(2) by (simp add: turn_unfold [OF assms(1)])
  let ?w3 = "emit (CallingTool (JStr n) fn_args)
     (emit (RawResponse (JObj d))
       (emit (Sent (ChatPost (messages w @ [user_message prompt]) True))
         (emit (Markdown User (JStr prompt)) (append_message (user_message prompt) w))))"
  have t: "turn env2 prompt w =
    (case tool_round env2 n fn_args ?w3 of
       (Inl e, w2) \<Rightarrow> (None, emit (ToolFailed n e) w2)
     | (Inr u, w2) \<Rightarrow> (None, w2))"
    using assms(3)
    by (simp add: turn_unfold [OF assms(1)] handle_response_tool_call [OF assms(4,5,6)]
        handle_tool_call_known [OF assms(6,7,8,9)])
  have c: "fst (call_function env2 n fn_args ?w3) = Inr result"
    using assms(10) call_function_result [of env2 n fn_args ?w3 w] by simp
  have r: "fst (tool_round env2 n fn_args ?w3) = Inl e2 \<and>
    messages (snd (tool_round env2 n fn_args ?w3)) =
      messages w @ [user_message prompt, tool_message n (dumps env2 result)]"
    using tool_round_followup [OF c] assms(11) by (simp add: andthen_def)
  have b: "fst (turn env2 prompt w) = None \<and>
    last (events (snd (turn env2 prompt w))) = ToolFailed n e2 \<and>
    messages (snd (turn env2 prompt w)) =
      messages w @ [user_message prompt, tool_message n (dumps env2 result)]"
    unfolding t using r by (cases "tool_round env2 n fn_args ?w3") auto
  from a b show ?thesis by blast
qed


theorem transport_failure_turn_witness:
  "fst (turn server_down_env ''list my files'' new_session) = Some (ConnectionError ''connection refused'') \<and>
   messages (snd (turn server_down_env ''list my files'' new_session)) =
     messages new_session @ [user_message ''list my files''] \<and>
   fst (turn followup_down_env ''list my files'' new_session) = None \<and>
   last (events (snd (turn followup_down_env ''list my files'' new_session))) =
     ToolFailed ''list_files'' (HTTPError 500) \<and>
   messages (snd (turn followup_down_env ''list my files'' new_session)) =
     messages new_session @ [user_message ''list my files'', tool_message ''list_files'' ''[]'']"
proof -
  let ?f = "[(''name'', JStr ''list_files''), (''arguments'', JObj [])]"
  let ?t = "[(''function'', JObj ?f)]"
  let ?m = "[(''role'', JStr ''assistant''), (''content'', JStr ''done''),
             (''tool_calls'', JList [JObj ?t])]"
  let ?d = "[(''message'', JObj ?m)]"
  have 1: "''list my files'' \<noteq> []" by simp
  have 2: "response_json (http server_down_env
      (ChatPost (messages new_session @ [user_message ''list my files'']) True)) =
      Inl (ConnectionError ''connection refused'')"
    by (simp add: server_down_env_def scripted_def response_json_def raise_for_status_def andthen_def)
  have 3: "response_json (http followup_down_env
      (ChatPost (messages new_session @ [user_message ''list my files'']) True)) = Inr (JObj ?d)"
    by (simp add: followup_down_env_def scripted_def tool_call_response_def response_json_def
        raise_for_status_def andthen_def)
  have 4: "map_of ?d ''message'' = Some (JObj ?m)" by simp
  have 5: "map_of ?m ''tool_calls'' = Some (JList (JObj ?t # []))" by simp
  have 6: "map_of ?t ''function'' = Some (JObj ?f)" by simp
  have 7: "map_of ?f ''name'' = Some (JStr ''list_files'')" by simp
  have 8: "''list_files'' \<in> set FUNCTION_MAP" by (simp add: FUNCTION_MAP_def)
  have 9: "decode_args followup_down_env
      (case map_of ?f ''arguments'' of Some a \<Rightarrow> a | None \<Rightarrow> JStr ''{}'') = Inr (JObj [])"
    by (simp add: decode_args_def)
  have 10: "fst (call_function followup_down_env ''list_files'' (JObj []) new_session) = Inr (JList [])"
    by (simp add: call_function_def list_files_def followup_down_env_def scripted_def split_def
        response_json_def raise_for_status_def andthen_def)
  have d: "dumps followup_down_env (JList []) = ''[]''"
    by (simp add: followup_down_env_def scripted_def sample_dumps_def)
  have 11: "response_json (http followup_down_env (ChatPost
      (messages new_session @ [user_message ''list my files'',
         tool_message ''list_files'' (dumps followup_down_env (JList []))]) False)) =
      Inl (HTTPError 500)"
    by (simp add: followup_down_env_def scripted_def response_json_def raise_for_status_def andthen_def)
  from transport_failure_turn [OF 1 2 3 4 5 6 7 8 9 10 11] show ?thesis
    unfolding d .
qed

text \<open>
  C1 as stated fails: when the second inference request fails, the tool message of the
  turn is already stored and stays.
\<close>

theorem followup_failure_counterexample:
  "map role (messages (snd (turn followup_down_env ''list my files'' new_session))) =
     [System, User, Tool]"
  by code_simp

section \<open>The invariant of the conversation store\<close>

lemma appendedI: "a = b @ new \<Longrightarrow> map role new \<in> S \<Longrightarrow> appended S b a"
  unfolding appended_def by (rule exI [of _ new]) (rule conjI)

lemma appendedE:
  assumes "appended S b a"
  obtains new where "a = b @ new" and "map role new \<in> S"
  using assms unfolding appended_def by (elim exE conjE)

lemma appended_mono:
  assumes "appended S b a" and "S \<subseteq> T"
  shows "appended T b a"
proof -
  from assms(1) obtain new where n: "a = b @ new" "map role new \<in> S"
    by (rule appendedE)
  from n(2) assms(2) have "map role new \<in> T"
    by (rule subsetD [rotated])
  with n(1) show ?thesis
    by (rule appendedI)
qed

lemma appended_same: "[] \<in> S \<Longrightarrow> appended S b b"
  by (rule appendedI [where new = "[]"]) simp_all

lemma appended_after:
  assumes "appended S (b @ [u]) a"
  shows "appended ((#) (role u) ` S) b a"
proof -
  from assms obtain new where n: "a = (b @ [u]) @ new" "map role new \<in> S"
    by (rule appendedE)
  from n(1) have 1: "a = b @ (u # new)"
    by simp
  from n(2) have 2: "map role (u # new) \<in> (#) (role u) ` S"
    by simp
  from 1 2 show ?thesis
    by (rule appendedI)
qed


lemma tool_round_appended:
  "appended {[], [Tool], [Tool, Assistant]} (messages w) (messages (snd (tool_round env n a w)))"
proof (cases "fst (call_function env n a w)")
  case (Inl e)
  from tool_round_adapter_error [OF this]
  have "messages (snd (tool_round env n a w)) = messages w"
    by (rule conjunct1 [OF conjunct2])
  then show ?thesis
    by (simp add: appended_same)
next
  case (Inr result)
  let ?f = "andthen (response_json (http env
            (ChatPost (messages w @ [tool_message n (dumps env result)]) False))) message_content"
  from tool_round_followup [OF Inr]
  have m: "messages (snd (tool_round env n a w)) =
      messages w @ tool_message n (dumps env result) #
        (case ?f of Inl e \<Rightarrow> [] | Inr final_msg \<Rightarrow> [assistant_message final_msg])"
    by (rule conjunct1 [OF conjunct2])
  show ?thesis
  proof (cases ?f)
    case (Inl e)
    show ?thesis
    proof (rule appendedI)
      show "messages (snd (tool_round env n a w)) = messages w @ [tool_message n (dumps env result)]"
        unfolding m Inl by simp
      show "map role [tool_message n (dumps env result)] \<in> {[], [Tool], [Tool, Assistant]}"
        by (simp add: tool_message_def)
    qed
  next
    case (Inr final_msg)
    show ?thesis
    proof (rule appendedI)
      show "messages (snd (tool_round env n a w)) =
          messages w @ [tool_message n (dumps env result), assistant_message final_msg]"
        unfolding m Inr by simp
      show "map role [tool_message n (dumps env result), assistant_message final_msg]
          \<in> {[], [Tool], [Tool, Assistant]}"
        by (simp add: tool_message_def assistant_message_def)
    qed
  qed
qed

lemma direct_reply_appended:
  "appended {[], [Assistant]} (messages w) (messages (snd (direct_reply data w)))"
proof (cases "message_content data")
  case (Inl e)
  then have "messages (snd (direct_reply data w)) = messages w"
    by (simp add: direct_reply_def)
  then show ?thesis
    by (simp add: appended_same)
next
  case (Inr final_msg)
  show ?thesis
  proof (rule appendedI)
    show "messages (snd (direct_reply data w)) = messages w @ [assistant_message final_msg]"
      by (simp add: direct_reply_def Inr assistant_message_def)
    show "map role [assistant_message final_msg] \<in> {[], [Assistant]}"
      by (simp add: assistant_message_def)
  qed
qed


lemma tool_outcome_appended:
  assumes "messages w' = messages w"
  shows "appended {[], [Tool], [Tool, Assistant]} (messages w)
     (messages (snd (case tool_round env n a w' of
        (Inl e, w2) \<Rightarrow> (None :: exn option, emit (ToolFailed n e) w2)
      | (Inr u, w2) \<Rightarrow> (None, w2))))"
proof -
  obtain r w2 where t: "tool_round env n a w' = (r, w2)"
    by (cases "tool_round env n a w'")
  have "messages (snd (case tool_round env n a w' of
        (Inl e, w2) \<Rightarrow> (None :: exn option, emit (ToolFailed n e) w2)
      | (Inr u, w2) \<Rightarrow> (None, w2))) = messages (snd (tool_round env n a w'))"
    unfolding t by (cases r) simp_all
  with tool_round_appended [where w = w' and env = env and n = n and a = a] assms
  show ?thesis
    by simp
qed

lemma handle_tool_call_appended:
  "appended {[], [Tool], [Tool, Assistant]} (messages w) (messages (snd (handle_tool_call env tc w)))"
proof (cases "andthen (py_item tc ''function'') (\<lambda>f. py_item f ''name'')")
  case (Inl e)
  then show ?thesis
    by (simp add: handle_tool_call_def appended_same)
next
  case name: (Inr fn_name)
  show ?thesis
  proof (cases "andthen (py_item tc ''function'') (\<lambda>f. py_get f ''arguments'' (JStr ''{}''))")
    case (Inl e)
    with name show ?thesis
      by (simp add: handle_tool_call_def appended_same)
  next
    case args: (Inr args)
    show ?thesis
    proof (cases "decode_args env args")
      case (Inl e)
      with name args show ?thesis
        by (simp add: handle_tool_call_def appended_same)
    next
      case dec: (Inr fn_args)
      let ?w1 = "emit (CallingTool fn_name fn_args) w"
      have same: "appended {[], [Tool], [Tool, Assistant]} (messages w) (messages w)"
        by (simp add: appended_same)
      show ?thesis
      proof (cases fn_name)
        case (JStr n)
        show ?thesis
        proof (cases "n \<in> set FUNCTION_MAP")
          case True
          have "messages ?w1 = messages w"
            by simp
          from tool_outcome_appended [OF this, where env = env and n = n and a = fn_args]
          show ?thesis
            using name args dec JStr True by (simp add: handle_tool_call_def Let_def)
        next
          case False
          with name args dec JStr same show ?thesis
            by (simp add: handle_tool_call_def Let_def)
        qed
      next
        case JNull
        with name args dec same show ?thesis
          by (simp add: handle_tool_call_def Let_def)
      next
        case (JBool b)
        with name args dec same show ?thesis
          by (simp add: handle_tool_call_def Let_def)
      next
        case (JNum i)
        with name args dec same show ?thesis
          by (simp add: handle_tool_call_def Let_def)
      next
        case (JList xs)
        with name args dec same show ?thesis
          by (simp add: handle_tool_call_def Let_def)
      next
        case (JObj kvs)
        with name args dec same show ?thesis
          by (simp add: handle_tool_call_def Let_def)
      qed
    qed
  qed
qed


lemma handle_response_appended:
  "appended {[], [Assistant], [Tool], [Tool, Assistant]} (messages w)
     (messages (snd (handle_response env data w)))"
proof -
  have d: "appended {[], [Assistant], [Tool], [Tool, Assistant]} (messages w)
      (messages (snd (direct_reply data w)))"
    by (rule appended_mono [OF direct_reply_appended]) simp
  have h: "appended {[], [Assistant], [Tool], [Tool, Assistant]} (messages w)
      (messages (snd (handle_tool_call env tc w)))" for tc
    by (rule appended_mono [OF handle_tool_call_appended]) simp
  show ?thesis
  proof (cases "select_tool_call data")
    case (Inl e)
    then show ?thesis
      by (simp add: handle_response_def appended_same)
  next
    case (Inr sel)
    show ?thesis
    proof (cases sel)
      case None
      with Inr d show ?thesis
        by (simp add: handle_response_def)
    next
      case (Some tc)
      show ?thesis
      proof (cases "truthy tc")
        case True
        with Inr Some h [of tc] show ?thesis
          by (simp add: handle_response_def)
      next
        case False
        with Inr Some d show ?thesis
          by (simp add: handle_response_def)
      qed
    qed
  qed
qed


lemma turn_appended:
  "appended {[], [User], [User, Assistant], [User, Tool], [User, Tool, Assistant]} (messages w)
     (messages (snd (turn env prompt w)))"
proof (cases "prompt = []")
  case True
  then show ?thesis
    by (simp add: turn_def appended_same)
next
  case False
  let ?w1 = "emit (Markdown User (JStr prompt)) (append_message (user_message prompt) w)"
  let ?w2 = "emit (Sent (ChatPost (messages w @ [user_message prompt]) True)) ?w1"
  show ?thesis
  proof (cases "response_json (http env (ChatPost (messages w @ [user_message prompt]) True))")
    case (Inl e)
    show ?thesis
    proof (rule appendedI)
      show "messages (snd (turn env prompt w)) = messages w @ [user_message prompt]"
        using Inl by (simp add: turn_unfold [OF False])
      show "map role [user_message prompt]
          \<in> {[], [User], [User, Assistant], [User, Tool], [User, Tool, Assistant]}"
        by (simp add: user_message_def)
    qed
  next
    case (Inr data)
    let ?w3 = "emit (RawResponse data) ?w2"
    have t: "turn env prompt w = handle_response env data ?w3"
      using Inr by (simp add: turn_unfold [OF False])
    from handle_response_appended [where env = env and data = data and w = ?w3]
    have "appended {[], [Assistant], [Tool], [Tool, Assistant]} (messages w @ [user_message prompt])
        (messages (snd (turn env prompt w)))"
      by (simp add: t)
    then have "appended ((#) (role (user_message prompt)) ` {[], [Assistant], [Tool], [Tool, Assistant]})
        (messages w) (messages (snd (turn env prompt w)))"
      by (rule appended_after)
    then show ?thesis
      by (rule appended_mono) (simp add: user_message_def)
  qed
qed

lemma placed_append_user:
  assumes "tool_messages_placed r prev xs" and "role u = User"
    and "tool_messages_placed r (Some User) rest"
  shows "tool_messages_placed r prev (xs @ u # rest)"
  using assms
proof (induction xs arbitrary: prev)
  case Nil
  then show ?case by simp
next
  case (Cons m ms)
  from Cons.prems(1) have p: "role m = Tool \<longrightarrow> prev = Some r \<and>
      (case ms of [] \<Rightarrow> True | n # rest \<Rightarrow> role n = Assistant \<or> role n = User)"
    and q: "tool_messages_placed r (Some (role m)) ms"
    by simp_all
  from Cons.IH [OF q Cons.prems(2,3)]
  have ih: "tool_messages_placed r (Some (role m)) (ms @ u # rest)" .
  have "case ms @ u # rest of [] \<Rightarrow> True | n # rest \<Rightarrow> role n = Assistant \<or> role n = User"
    if "role m = Tool"
    using p that Cons.prems(2) by (cases ms) simp_all
  with p ih show ?case
    by simp
qed

lemma placed_new:
  assumes "map role new \<in> {[User], [User, Assistant], [User, Tool], [User, Tool, Assistant]}"
  obtains u rest where "new = u # rest" and "role u = User"
    and "tool_messages_placed User (Some User) rest"
proof (cases new)
  case Nil
  with assms show ?thesis by simp
next
  case (Cons u rest)
  from assms have u: "role u = User"
    unfolding Cons by auto
  from assms have "map role rest \<in> {[], [Assistant], [Tool], [Tool, Assistant]}"
    unfolding Cons by auto
  then have "tool_messages_placed User (Some User) rest"
    by (auto simp add: map_eq_Cons_conv)
  with Cons u show ?thesis
    by (rule that)
qed

lemma reachable_placed: "reachable ms \<Longrightarrow> tool_messages_placed User None ms"
proof (induction rule: reachable.induct)
  case start
  show ?case by (simp add: initial_messages_def)
next
  case (step ms env prompt r)
  let ?w = "\<lparr>messages = ms, rerun = r, events = []\<rparr>"
  from turn_appended [where env = env and prompt = prompt and w = ?w]
  obtain new where n: "messages (snd (turn env prompt ?w)) = ms @ new"
    and s: "map role new \<in> {[], [User], [User, Assistant], [User, Tool], [User, Tool, Assistant]}"
    by (rule appendedE) simp
  show ?case
  proof (cases "new = []")
    case True
    with n step.IH show ?thesis by simp
  next
    case False
    with s have "map role new \<in> {[User], [User, Assistant], [User, Tool], [User, Tool, Assistant]}"
      by simp
    then obtain u rest where new: "new = u # rest" and u: "role u = User"
      and rest: "tool_messages_placed User (Some User) rest"
      by (rule placed_new)
    from placed_append_user [OF step.IH u rest] show ?thesis
      unfolding n new .
  qed
qed

lemma handle_response_no_request:
  assumes "\<forall>tc. select_tool_call data = Inr (Some tc) \<longrightarrow> \<not> truthy tc"
  shows "appended {[], [Assistant]} (messages w) (messages (snd (handle_response env data w)))"
proof (cases "select_tool_call data")
  case (Inl e)
  then show ?thesis
    by (simp add: handle_response_def appended_same)
next
  case (Inr sel)
  show ?thesis
  proof (cases sel)
    case None
    with Inr direct_reply_appended [where w = w and data = data] show ?thesis
      by (simp add: handle_response_def)
  next
    case (Some tc)
    with Inr assms have "\<not> truthy tc"
      by simp
    with Inr Some direct_reply_appended [where w = w and data = data] show ?thesis
      by (simp add: handle_response_def)
  qed
qed

lemma turn_no_request:
  assumes "prompt \<noteq> []"
    and "response_json (http env (ChatPost (messages w @ [user_message prompt]) True)) = Inr data"
    and "\<forall>tc. select_tool_call data = Inr (Some tc) \<longrightarrow> \<not> truthy tc"
  shows "appended {[User], [User, Assistant]} (messages w) (messages (snd (turn env prompt w)))"
proof -
  let ?w1 = "emit (Markdown User (JStr prompt)) (append_message (user_message prompt) w)"
  let ?w2 = "emit (Sent (ChatPost (messages w @ [user_message prompt]) True)) ?w1"
  let ?w3 = "emit (RawResponse data) ?w2"
  have t: "turn env prompt w = handle_response env data ?w3"
    using assms(2) by (simp add: turn_unfold [OF assms(1)])
  from handle_response_no_request [OF assms(3), where env = env and w = ?w3]
  have "appended {[], [Assistant]} (messages w @ [user_message prompt])
      (messages (snd (turn env prompt w)))"
    by (simp add: t)
  then have "appended ((#) (role (user_message prompt)) ` {[], [Assistant]})
      (messages w) (messages (snd (turn env prompt w)))"
    by (rule appended_after)
  then show ?thesis
    by (rule appended_mono) (simp add: user_message_def)
qed

text \<open>
  C2 (amended): in every message sequence the store can hold, every \<^verbatim>\<open>tool\<close> message comes
  right after the \<^verbatim>\<open>user\<close> message of its turn (the assistant's request for the tool is
  never stored), and what comes right after it, if anything, is the \<^verbatim>\<open>assistant\<close> message
  of the follow-up or, when the follow-up failed, the \<^verbatim>\<open>user\<close> message of the next turn.
  No \<^verbatim>\<open>tool\<close> message is stored without a request: a turn whose first response selects no
  tool call stores the user's message and at most one \<^verbatim>\<open>assistant\<close> message.
\<close>

theorem tool_message_placement:
  "(reachable ms \<longrightarrow> tool_messages_placed User None ms) \<and>
   (prompt \<noteq> [] \<and>
    response_json (http env (ChatPost (messages w @ [user_message prompt]) True)) = Inr data \<and>
    (\<forall>tc. select_tool_call data = Inr (Some tc) \<longrightarrow> \<not> truthy tc) \<longrightarrow>
      appended {[User], [User, Assistant]} (messages w) (messages (snd (turn env prompt w))))"
proof (intro conjI impI)
  assume "reachable ms"
  then show "tool_messages_placed User None ms"
    by (rule reachable_placed)
next
  assume a: "prompt \<noteq> [] \<and>
    response_json (http env (ChatPost (messages w @ [user_message prompt]) True)) = Inr data \<and>
    (\<forall>tc. select_tool_call data = Inr (Some tc) \<longrightarrow> \<not> truthy tc)"
  from a have 1: "prompt \<noteq> []" ..
  from a have 2: "response_json (http env (ChatPost (messages w @ [user_message prompt]) True)) = Inr data"
    by (rule conjunct1 [OF conjunct2])
  from a have 3: "\<forall>tc. select_tool_call data = Inr (Some tc) \<longrightarrow> \<not> truthy tc"
    by (rule conjunct2 [OF conjunct2])
  from 1 2 3 show "appended {[User], [User, Assistant]} (messages w) (messages (snd (turn env prompt w)))"
    by (rule turn_no_request)
qed

text \<open>
  Two turns of one session: the follow-up of the first fails, so its \<^verbatim>\<open>tool\<close> message is
  followed by the next \<^verbatim>\<open>user\<close> message; the second turn gets a plain reply.
\<close>

theorem tool_message_placement_witness:
  "reachable (messages (snd (turn hello_env ''thanks''
      \<lparr>messages = messages (snd (turn followup_down_env ''list my files''
          \<lparr>messages = initial_messages, rerun = False, events = []\<rparr>)),
       rerun = False, events = []\<rparr>))) \<and>
   map role (messages (snd (turn hello_env ''thanks''
      \<lparr>messages = messages (snd (turn followup_down_env ''list my files''
          \<lparr>messages = initial_messages, rerun = False, events = []\<rparr>)),
       rerun = False, events = []\<rparr>))) = [System, User, Tool, User, Assistant] \<and>
   tool_messages_placed User None (messages (snd (turn hello_env ''thanks''
      \<lparr>messages = messages (snd (turn followup_down_env ''list my files''
          \<lparr>messages = initial_messages, rerun = False, events = []\<rparr>)),
       rerun = False, events = []\<rparr>))) \<and>
   select_tool_call (text_response ''Hello.'') = Inr None \<and>
   appended {[User], [User, Assistant]} (messages new_session)
     (messages (snd (turn hello_env ''hi'' new_session)))"
proof -
  let ?ms = "messages (snd (turn hello_env ''thanks''
      \<lparr>messages = messages (snd (turn followup_down_env ''list my files''
          \<lparr>messages = initial_messages, rerun = False, events = []\<rparr>)),
       rerun = False, events = []\<rparr>))"
  have r: "reachable ?ms"
    by (rule reachable.step [OF reachable.step [OF reachable.start]])
  have 1: "''hi'' \<noteq> []"
    by simp
  have 2: "response_json (http hello_env (ChatPost (messages new_session @ [user_message ''hi'']) True)) =
      Inr (text_response ''Hello.'')"
    by (simp add: hello_env_def scripted_def response_json_def raise_for_status_def andthen_def)
  have 3: "select_tool_call (text_response ''Hello.'') = Inr None"
    by code_simp
  have 4: "map role ?ms = [System, User, Tool, User, Assistant]"
    by code_simp
  from tool_message_placement [where ms = ?ms and prompt = "''hi''" and env = hello_env
      and w = new_session and data = "text_response ''Hello.''"] r 1 2 3 4
  show ?thesis
    by simp
qed

text \<open>
  The store after a complete tool round-trip: the \<^verbatim>\<open>tool\<close> message comes right after the
  \<^verbatim>\<open>user\<close> message, not after an \<^verbatim>\<open>assistant\<close> message.
\<close>

theorem assistant_request_not_stored_counterexample:
  "reachable (messages (snd (turn listing_env ''list my files''
      \<lparr>messages = initial_messages, rerun = False, events = []\<rparr>))) \<and>
   map role (messages (snd (turn listing_env ''list my files''
      \<lparr>messages = initial_messages, rerun = False, events = []\<rparr>))) =
     [System, User, Tool, Assistant] \<and>
   \<not> tool_messages_placed Assistant None (messages (snd (turn listing_env ''list my files''
      \<lparr>messages = initial_messages, rerun = False, events = []\<rparr>)))"
proof (intro conjI)
  show "reachable (messages (snd (turn listing_env ''list my files''
      \<lparr>messages = initial_messages, rerun = False, events = []\<rparr>)))"
    by (rule reachable.step [OF reachable.start])
  show "map role (messages (snd (turn listing_env ''list my files''
      \<lparr>messages = initial_messages, rerun = False, events = []\<rparr>))) =
     [System, User, Tool, Assistant]"
    by code_simp
  show "\<not> tool_messages_placed Assistant None (messages (snd (turn listing_env ''list my files''
      \<lparr>messages = initial_messages, rerun = False, events = []\<rparr>)))"
    by code_simp
qed

section \<open>The service adapters and the session state\<close>

lemma get_docker_client_frame:
  "messages (snd (get_docker_client env dk w)) = messages w"
  "rerun (snd (get_docker_client env dk w)) = rerun w"
  "fst (get_docker_client env dk v) = fst (get_docker_client env dk w)"
  by (simp_all add: get_docker_client_def split: sum.splits)

lemma list_files_in_vault_frame:
  "messages (snd (list_files_in_vault env w)) = messages w"
  "rerun (snd (list_files_in_vault env w)) = rerun w"
  "fst (list_files_in_vault env v) = fst (list_files_in_vault env w)"
  by (simp_all add: list_files_in_vault_def split_def)

lemma list_files_in_dir_frame:
  "messages (snd (list_files_in_dir env directory w)) = messages w"
  "rerun (snd (list_files_in_dir env directory w)) = rerun w"
  "fst (list_files_in_dir env directory v) = fst (list_files_in_dir env directory w)"
  by (simp_all add: list_files_in_dir_def split_def)

lemma get_file_contents_frame:
  "messages (snd (get_file_contents env filepath w)) = messages w"
  "rerun (snd (get_file_contents env filepath w)) = rerun w"
  "fst (get_file_contents env filepath v) = fst (get_file_contents env filepath w)"
  by (simp_all add: get_file_contents_def split_def)

lemma append_content_frame:
  "messages (snd (append_content env filepath c w)) = messages w"
  "rerun (snd (append_content env filepath c w)) = rerun w"
  "fst (append_content env filepath c v) = fst (append_content env filepath c w)"
  by (simp_all add: append_content_def split_def)

lemma patch_content_frame:
  "messages (snd (patch_content env filepath t g n w)) = messages w"
  "rerun (snd (patch_content env filepath t g n w)) = rerun w"
  "fst (patch_content env filepath t g n v) = fst (patch_content env filepath t g n w)"
  by (simp_all add: patch_content_def split_def Let_def)

lemma search_obsidian_vault_frame:
  "messages (snd (search_obsidian_vault env query w)) = messages w"
  "rerun (snd (search_obsidian_vault env query w)) = rerun w"
  "fst (search_obsidian_vault env query v) = fst (search_obsidian_vault env query w)"
  by (simp_all add: search_obsidian_vault_def split_def)

lemma delete_obsidian_file_frame:
  "messages (snd (delete_obsidian_file env filepath w)) = messages w"
  "rerun (snd (delete_obsidian_file env filepath w)) = rerun w"
  "fst (delete_obsidian_file env filepath v) = fst (delete_obsidian_file env filepath w)"
  by (simp_all add: delete_obsidian_file_def split_def)

lemma list_docker_images_frame:
  "messages (snd (list_docker_images env dk w)) = messages w"
  "rerun (snd (list_docker_images env dk w)) = rerun w"
  "fst (list_docker_images env dk v) = fst (list_docker_images env dk w)"
  by (cases dk; simp add: list_docker_images_def get_docker_client_def)+

lemma list_docker_containers_frame:
  "messages (snd (list_docker_containers env dk w)) = messages w"
  "rerun (snd (list_docker_containers env dk w)) = rerun w"
  "fst (list_docker_containers env dk v) = fst (list_docker_containers env dk w)"
  by (cases dk; simp add: list_docker_containers_def get_docker_client_def)+

lemma create_docker_container_no_client:
  "messages (snd (create_docker_container env (Inl e) image_name w)) = messages w"
  "rerun (snd (create_docker_container env (Inl e) image_name w)) = rerun w"
  by (simp_all add: create_docker_container_def get_docker_client_def)

lemma create_docker_container_client:
  "messages (snd (create_docker_container env (Inr c) image_name w)) =
     messages w @ creating_message image_name #
       (if images_get c image_name = Some ImageNotFound then [pulling_message image_name] else [])"
  "rerun (snd (create_docker_container env (Inr c) image_name w)) = True"
  by (simp_all add: create_docker_container_def get_docker_client_def Let_def split_def
      split: option.splits sum.splits)


lemmas adapter_store =
  list_files_in_vault_frame(1,2) list_files_in_dir_frame(1,2) get_file_contents_frame(1,2)
  append_content_frame(1,2) patch_content_frame(1,2) search_obsidian_vault_frame(1,2)
  delete_obsidian_file_frame(1,2) list_docker_images_frame(1,2) list_docker_containers_frame(1,2)

lemmas adapter_result =
  list_files_in_vault_frame(3) list_files_in_dir_frame(3) get_file_contents_frame(3)
  append_content_frame(3) patch_content_frame(3) search_obsidian_vault_frame(3)
  delete_obsidian_file_frame(3) list_docker_images_frame(3) list_docker_containers_frame(3)

lemma call_adapter_frame:
  assumes "\<not> is_docker_create cmd" and "call_adapter env dk cmd w = Some r"
  shows "messages (snd r) = messages w" and "rerun (snd r) = rerun w"
    and "map_option fst (call_adapter env dk cmd v) = Some (fst r)"
  using assms by (cases cmd; auto simp add: adapter_store intro: adapter_result)+

text \<open>
  C8 (amended): every adapter except \<^verbatim>\<open>create_docker_container\<close> is stateless. A call of
  one of the other nine adapters of the command script, or of one of the three adapters of
  the tool-calling script, leaves the conversation store and the \<^verbatim>\<open>rerun\<close> attribute as they
  were, and its result is the same from every session state. \<^verbatim>\<open>create_docker_container\<close>
  leaves them alone only when no Docker client is available; with a client it appends its
  progress message to the conversation store, a second one when the image is not found
  locally, and sets \<^verbatim>\<open>rerun\<close>.
\<close>

theorem adapters_and_the_store:
  "(\<not> is_docker_create cmd \<and> call_adapter env dk cmd w = Some r \<longrightarrow>
      messages (snd r) = messages w \<and> rerun (snd r) = rerun w \<and>
      map_option fst (call_adapter env dk cmd v) = Some (fst r)) \<and>
   (messages (snd (call_function env n a w)) = messages w \<and>
    rerun (snd (call_function env n a w)) = rerun w \<and>
    fst (call_function env n a v) = fst (call_function env n a w)) \<and>
   (messages (snd (create_docker_container env (Inl e) image_name w)) = messages w \<and>
    rerun (snd (create_docker_container env (Inl e) image_name w)) = rerun w) \<and>
   (messages (snd (create_docker_container env (Inr c) image_name w)) =
      messages w @ creating_message image_name #
        (if images_get c image_name = Some ImageNotFound then [pulling_message image_name] else []) \<and>
    rerun (snd (create_docker_container env (Inr c) image_name w)) = True)"
proof (intro conjI impI)
  assume a: "\<not> is_docker_create cmd \<and> call_adapter env dk cmd w = Some r"
  then have 1: "\<not> is_docker_create cmd" and 2: "call_adapter env dk cmd w = Some r"
    by simp_all
  from 1 2 show "messages (snd r) = messages w"
    by (rule call_adapter_frame)
  from 1 2 show "rerun (snd r) = rerun w"
    by (rule call_adapter_frame)
  from 1 2 show "map_option fst (call_adapter env dk cmd v) = Some (fst r)"
    by (rule call_adapter_frame)
next
  show "messages (snd (call_function env n a w)) = messages w"
    using call_function_frame [of env n a w] by simp
  show "rerun (snd (call_function env n a w)) = rerun w"
    using call_function_frame [of env n a w] by simp
  show "fst (call_function env n a v) = fst (call_function env n a w)"
    by (rule call_function_result)
next
  show "messages (snd (create_docker_container env (Inl e) image_name w)) = messages w"
    by (rule create_docker_container_no_client)
  show "rerun (snd (create_docker_container env (Inl e) image_name w)) = rerun w"
    by (rule create_docker_container_no_client)
next
  show "messages (snd (create_docker_container env (Inr c) image_name w)) =
      messages w @ creating_message image_name #
        (if images_get c image_name = Some ImageNotFound then [pulling_message image_name] else [])"
    by (rule create_docker_container_client)
  show "rerun (snd (create_docker_container env (Inr c) image_name w)) = True"
    by (rule create_docker_container_client)
qed

text \<open>The listing of a directory, asked from the store that holds the user's line.\<close>

theorem adapters_and_the_store_witness:
  "\<not> is_docker_create (ListDir ''notes'') \<and>
   call_adapter vault_env (Inr sample_client) (ListDir ''notes'')
       (command_session ''/obsidian_list_dir notes'') =
     Some (Inr (JStr (''### Files in `notes`'' @ newline @ ''- `a.md`'' @ newline)),
           emit (Sent (VaultPost ''/list_files_in_dir'' (Some (JObj [(''directory'', JStr ''notes'')]))))
             (command_session ''/obsidian_list_dir notes'')) \<and>
   messages (emit (Sent (VaultPost ''/list_files_in_dir'' (Some (JObj [(''directory'', JStr ''notes'')]))))
             (command_session ''/obsidian_list_dir notes'')) =
     messages (command_session ''/obsidian_list_dir notes'') \<and>
   map_option fst (call_adapter vault_env (Inr sample_client) (ListDir ''notes'') new_session) =
     Some (Inr (JStr (''### Files in `notes`'' @ newline @ ''- `a.md`'' @ newline)))"
proof -
  let ?w = "command_session ''/obsidian_list_dir notes''"
  let ?r = "(Inr (JStr (''### Files in `notes`'' @ newline @ ''- `a.md`'' @ newline)) :: exn + json,
    emit (Sent (VaultPost ''/list_files_in_dir'' (Some (JObj [(''directory'', JStr ''notes'')])))) ?w)"
  have 1: "\<not> is_docker_create (ListDir ''notes'')"
    by simp
  have 2: "call_adapter vault_env (Inr sample_client) (ListDir ''notes'') ?w = Some ?r"
    by code_simp
  from adapters_and_the_store [where cmd = "ListDir ''notes''" and env = vault_env
      and dk = "Inr sample_client" and w = ?w and r = ?r and v = new_session] 1 2
  show ?thesis
    by simp
qed

text \<open>
  The creation of a container from an image that has to be pulled: two messages are
  appended to the store and \<^verbatim>\<open>rerun\<close> is set.
\<close>

theorem create_docker_container_counterexample:
  "parse_command ''/docker_create redis'' = Inr (DockerCreate ''redis'') \<and>
   map_option (\<lambda>r. messages (snd r))
       (call_adapter vault_env (Inr sample_client) (DockerCreate ''redis'')
          (command_session ''/docker_create redis'')) =
     Some (messages (command_session ''/docker_create redis'') @
       [creating_message ''redis'', pulling_message ''redis'']) \<and>
   map_option (\<lambda>r. rerun (snd r))
       (call_adapter vault_env (Inr sample_client) (DockerCreate ''redis'')
          (command_session ''/docker_create redis'')) = Some True \<and>
   rerun (command_session ''/docker_create redis'') = False"
  by (intro conjI; code_simp)

end
